theory Spec2Isabelle
  imports Main
begin

section \<open>Synchronous retrying of assets (retry-sync.ts)\<close>

text \<open>
  A shallow embedding of \<^verbatim>\<open>initSync\<close> of \<^verbatim>\<open>src/retry-sync.ts\<close>: the capture-phase
  \<^verbatim>\<open>errorHandler\<close> and \<^verbatim>\<open>loadHandler\<close> and the scan \<^verbatim>\<open>processExistingElements\<close>.
  The module-level mutable state (the collector store behind \<^verbatim>\<open>extractInfoFromUrl\<close> and
  \<^verbatim>\<open>retryCache\<close>) is passed explicitly; what a handler does to the outside world (calls of
  the caller's hooks, reloads of elements) is appended to a list of effects in the order
  in which the source performs them. A handler returns the outcome of the invocation
  (returned, or aborted by the thrown error) together with the state it leaves behind:
  the mutations performed before a \<^verbatim>\<open>throw\<close> persist.
\<close>

subsection \<open>Elements, events and the document\<close>

datatype elementKind =
    ScriptElement | LinkElement | ImageElement | OtherHTMLElement | NonHTMLTarget

record element =
  nodeId :: nat
  kind :: elementKind
  src :: string
  href :: string
  attributes :: "(string \<times> string) list"
  complete :: bool
  naturalWidth :: nat
  naturalHeight :: nat

record event =
  target :: "element option"
  srcElement :: "element option"

record styleSheet =
  sheetHref :: "string option"
  cssRules :: "string list option"

record document =
  styleSheets :: "styleSheet list option"
  elements :: "element list"

definition hasAttribute :: "element \<Rightarrow> string \<Rightarrow> bool" where
  "hasAttribute e name = (map_of (attributes e) name \<noteq> None)"

definition getAttribute :: "element \<Rightarrow> string \<Rightarrow> string option" where
  "getAttribute e name = map_of (attributes e) name"

text \<open>JavaScript truthiness of a value that is a string or null.\<close>

fun truthy :: "string option \<Rightarrow> bool" where
  "truthy None = False"
| "truthy (Some u) = (u \<noteq> [])"

text \<open>
  Modelled from the spec: the attribute names of \<^verbatim>\<open>./constants\<close> (\<^verbatim>\<open>ignoreIdentifier\<close>,
  \<^verbatim>\<open>hookedIdentifier\<close>) are not under src; they are fixed, distinct attribute names.
\<close>

definition ignoreIdentifier :: string where
  "ignoreIdentifier = ''data-assets-retry-ignore''"

definition hookedIdentifier :: string where
  "hookedIdentifier = ''data-assets-retry-hooked''"

subsection \<open>Collectors, options and the session state\<close>

record collector =
  retryCount :: nat
  succeeded :: "string list"
  failed :: "string list"

type_synonym domainMap = "(string \<times> string) list"

datatype retryReturn = ReturnsNull | ReturnsString string | ReturnsOther

record opts =
  onRetry :: "string \<Rightarrow> string \<Rightarrow> collector \<Rightarrow> retryReturn"
  domain :: domainMap
  maxRetryCount :: int

datatype effect =
    OnRetry string string collector
  | OnSuccess string
  | OnFail string
  | ReloadImage element string
  | LoadNextScript element string
  | LoadNextLink element string

datatype outcome = Returned | Thrown

record state =
  retryCollector :: "string \<rightharpoonup> collector"
  retryCache :: "string set"
  effects :: "effect list"

definition newCollector :: collector where
  "newCollector = \<lparr>retryCount = 0, succeeded = [], failed = []\<rparr>"

definition initialState :: state where
  "initialState = \<lparr>retryCollector = Map.empty, retryCache = {}, effects = []\<rparr>"

text \<open>A collector reference is the key of the collector in the store.\<close>

definition collectorAt :: "state \<Rightarrow> string \<Rightarrow> collector" where
  "collectorAt s d = (case retryCollector s d of None \<Rightarrow> newCollector | Some c \<Rightarrow> c)"

definition emit :: "effect \<Rightarrow> state \<Rightarrow> state" where
  "emit x s = s\<lparr>effects := effects s @ [x]\<rparr>"

subsection \<open>The helpers of ./util and ./url\<close>

primrec startsWith :: "string \<Rightarrow> string \<Rightarrow> bool" where
  "startsWith [] u = True"
| "startsWith (c # cs) u = (case u of [] \<Rightarrow> False | k # ks \<Rightarrow> c = k \<and> startsWith cs ks)"

text \<open>\<^verbatim>\<open>url.indexOf(d)\<close>, with None for -1.\<close>

fun indexOf :: "string \<Rightarrow> string \<Rightarrow> nat option" where
  "indexOf d [] = (if d = [] then Some 0 else None)"
| "indexOf d (c # cs) =
     (if startsWith d (c # cs) then Some 0 else map_option Suc (indexOf d cs))"

text \<open>
  Modelled from the spec: \<^verbatim>\<open>stringReplace\<close> of \<^verbatim>\<open>./util\<close> is not under src;
  "first-occurrence literal replace".
\<close>

definition stringReplace :: "string \<Rightarrow> string \<Rightarrow> string \<Rightarrow> string" where
  "stringReplace u old new =
     (case indexOf old u of
        None \<Rightarrow> u
      | Some i \<Rightarrow> take i u @ new @ drop (i + length old) u)"

text \<open>
  Modelled from the spec: \<^verbatim>\<open>getTargetUrl\<close> of \<^verbatim>\<open>./util\<close> is not under src; it "returns null
  for elements with no loadable source", and the handlers' comment reads "not one of
  script / link / image element". The loadable source of a script or an image is its
  \<^verbatim>\<open>src\<close>, that of a link its \<^verbatim>\<open>href\<close>.
\<close>

fun getTargetUrl :: "element option \<Rightarrow> string option" where
  "getTargetUrl None = None"
| "getTargetUrl (Some e) =
     (case kind e of
        ScriptElement \<Rightarrow> Some (src e)
      | ImageElement \<Rightarrow> Some (src e)
      | LinkElement \<Rightarrow> Some (href e)
      | _ \<Rightarrow> None)"

text \<open>
  Modelled from the spec: \<^verbatim>\<open>hashTarget\<close> of \<^verbatim>\<open>./util\<close> is not under src; an "identifier
  derived deterministically from an element's identity/content", "stable per element
  instance". The general theorems below do not depend on the choice.
\<close>

definition kindName :: "elementKind \<Rightarrow> string" where
  "kindName k =
     (case k of ScriptElement \<Rightarrow> ''SCRIPT'' | LinkElement \<Rightarrow> ''LINK''
      | ImageElement \<Rightarrow> ''IMG'' | OtherHTMLElement \<Rightarrow> ''OTHER'' | NonHTMLTarget \<Rightarrow> ''not_supported'')"

definition hashTarget :: "element \<Rightarrow> string" where
  "hashTarget e = kindName (kind e) @ replicate (nodeId e) (CHR ''#'') @ src e @ href e"

text \<open>
  Modelled from the spec: \<^verbatim>\<open>splitUrl\<close> and \<^verbatim>\<open>extractInfoFromUrl\<close> of \<^verbatim>\<open>./url\<close> are not under
  src. The URL classifier returns the domain the URL originated from and the collector
  of that domain, and "not classified" when the URL's domain is not a key of the Domain
  Map; the scenario of the spec gives the logical path of \<^verbatim>\<open>http://a.com/x.js\<close> under the
  key \<^verbatim>\<open>a.com\<close> as \<^verbatim>\<open>/x.js\<close>. The domain of a URL is the first key of the map that occurs
  literally in it, the logical path is what follows that occurrence. A collector is
  "created lazily on first reference", one per domain.
\<close>

definition findDomain :: "string \<Rightarrow> domainMap \<Rightarrow> string option" where
  "findDomain u dm = List.find (\<lambda>d. indexOf d u \<noteq> None) (map fst dm)"

definition splitUrl :: "string \<Rightarrow> domainMap \<Rightarrow> string \<times> string" where
  "splitUrl u dm =
     (case findDomain u dm of
        None \<Rightarrow> ([], [])
      | Some d \<Rightarrow>
          (case indexOf d u of
             None \<Rightarrow> ([], [])
           | Some i \<Rightarrow> (drop (i + length d) u, d)))"

definition extractInfoFromUrl ::
  "string \<Rightarrow> domainMap \<Rightarrow> state \<Rightarrow> (string option \<times> string option) \<times> state" where
  "extractInfoFromUrl u dm s =
     (case findDomain u dm of
        None \<Rightarrow> ((None, None), s)
      | Some d \<Rightarrow>
          ((Some d, Some d),
           (case retryCollector s d of
              None \<Rightarrow> s\<lparr>retryCollector := (retryCollector s)(d \<mapsto> newCollector)\<rparr>
            | Some c \<Rightarrow> s)))"

text \<open>
  Modelled from the spec: \<^verbatim>\<open>getCssRules\<close> of \<^verbatim>\<open>./util\<close> is not under src; the rule list of a
  stylesheet object, null when it is inaccessible. No rule list can be read from a
  stylesheet object that was not found.
\<close>

fun getCssRules :: "styleSheet option \<Rightarrow> string list option" where
  "getCssRules None = None"
| "getCssRules (Some sh) = cssRules sh"

subsection \<open>The failure handler\<close>

text \<open>\<^verbatim>\<open>event.target || event.srcElement\<close>\<close>

definition eventTarget :: "event \<Rightarrow> element option" where
  "eventTarget ev = (case target ev of Some t \<Rightarrow> Some t | None \<Rightarrow> srcElement ev)"

definition isHTMLElement :: "element \<Rightarrow> bool" where
  "isHTMLElement e = (kind e \<noteq> NonHTMLTarget)"

text \<open>
  \<^verbatim>\<open>currentCollector[retryTimesProp]++\<close> and
  \<^verbatim>\<open>currentCollector[failedProp].push(originalUrl)\<close>
\<close>

definition recordFailure :: "string \<Rightarrow> string \<Rightarrow> state \<Rightarrow> state" where
  "recordFailure c u s =
     s\<lparr>retryCollector := (retryCollector s)(c \<mapsto>
          (collectorAt s c)\<lparr>retryCount := retryCount (collectorAt s c) + 1,
                            failed := failed (collectorAt s c) @ [u]\<rparr>)\<rparr>"

text \<open>\<^verbatim>\<open>currentCollector[succeededProp].push(originalUrl)\<close>\<close>

definition recordSuccess :: "string \<Rightarrow> string \<Rightarrow> state \<Rightarrow> state" where
  "recordSuccess c u s =
     s\<lparr>retryCollector := (retryCollector s)(c \<mapsto>
          (collectorAt s c)\<lparr>succeeded := succeeded (collectorAt s c) @ [u]\<rparr>)\<rparr>"

text \<open>
  The end of \<^verbatim>\<open>errorHandler\<close>, from the image branch on: an image is reloaded in place
  (a fresh retry marker, then the new \<^verbatim>\<open>src\<close>); a script or a link goes through
  \<^verbatim>\<open>retryCache\<close> and is reloaded by \<^verbatim>\<open>loadNextScript\<close> or \<^verbatim>\<open>loadNextLink\<close>.
\<close>

definition reloadTarget :: "element \<Rightarrow> string \<Rightarrow> state \<Rightarrow> state" where
  "reloadTarget t userModifiedUrl s =
     (if kind t = ImageElement \<and> src t \<noteq> [] then emit (ReloadImage t userModifiedUrl) s
      else
        let elementId = hashTarget t in
        if elementId \<in> retryCache s then s
        else
          let s' = s\<lparr>retryCache := insert elementId (retryCache s)\<rparr> in
          if kind t = ScriptElement \<and> \<not> truthy (getAttribute t hookedIdentifier) \<and> src t \<noteq> []
          then emit (LoadNextScript t userModifiedUrl) s'
          else if kind t = LinkElement \<and> \<not> truthy (getAttribute t hookedIdentifier) \<and> href t \<noteq> []
          then emit (LoadNextLink t userModifiedUrl) s'
          else s')"

text \<open>
  \<^verbatim>\<open>errorHandler\<close> from the increment of the retry count on, for a target \<open>t\<close> with URL
  \<open>originalUrl\<close>, current domain \<open>d\<close> and current collector \<open>c\<close>.
\<close>

definition retryOrFail :: "opts \<Rightarrow> element \<Rightarrow> string \<Rightarrow> string \<Rightarrow> string \<Rightarrow> state \<Rightarrow> outcome \<times> state" where
  "retryOrFail opt t originalUrl d c s =
     (let s2 = recordFailure c originalUrl s;
          isFinalRetry = (int (retryCount (collectorAt s2 c)) > maxRetryCount opt);
          s3 = (if isFinalRetry then emit (OnFail (fst (splitUrl originalUrl (domain opt)))) s2
                else s2)
      in
        if \<not> truthy (map_of (domain opt) d) \<or> isFinalRetry then (Returned, s3)
        else
          (case map_of (domain opt) d of
             None \<Rightarrow> (Returned, s3)
           | Some newDomain \<Rightarrow>
               let newUrl = stringReplace originalUrl d newDomain;
                   userModifiedUrl = onRetry opt newUrl originalUrl (collectorAt s3 c);
                   s4 = emit (OnRetry newUrl originalUrl (collectorAt s3 c)) s3
               in
                 (case userModifiedUrl of
                    ReturnsNull \<Rightarrow> (Returned, s4)
                  | ReturnsOther \<Rightarrow> (Thrown, s4)
                  | ReturnsString u \<Rightarrow> (Returned, reloadTarget t u s4))))"

definition errorHandler :: "opts \<Rightarrow> event option \<Rightarrow> state \<Rightarrow> outcome \<times> state" where
  "errorHandler opt e s =
     (case e of
        None \<Rightarrow> (Returned, s)
      | Some ev \<Rightarrow>
          (case getTargetUrl (eventTarget ev) of
             None \<Rightarrow> (Returned, s)
           | Some originalUrl \<Rightarrow>
               if originalUrl = [] then (Returned, s)
               else
                 (case eventTarget ev of
                    None \<Rightarrow> (Returned, s)
                  | Some t \<Rightarrow>
                      (case extractInfoFromUrl originalUrl (domain opt) s of
                         ((currentDomain, currentCollector), s1) \<Rightarrow>
                           (case (currentCollector, currentDomain) of
                              (Some c, Some d) \<Rightarrow>
                                if d = [] \<or> (isHTMLElement t \<and> hasAttribute t ignoreIdentifier)
                                then (Returned, s1)
                                else if kind t = LinkElement
                                        \<and> getAttribute t ''rel'' \<noteq> Some ''stylesheet''
                                then (Returned, s1)
                                else retryOrFail opt t originalUrl d c s1
                            | _ \<Rightarrow> (Returned, s1))))))"

subsection \<open>The success handler\<close>

definition callOnSuccess :: "string option \<Rightarrow> string \<Rightarrow> string \<Rightarrow> state \<Rightarrow> state" where
  "callOnSuccess currentCollector originalUrl srcPath s =
     emit (OnSuccess srcPath)
       (case currentCollector of
          None \<Rightarrow> s
        | Some c \<Rightarrow> recordSuccess c originalUrl s)"

text \<open>\<^verbatim>\<open>styleSheets.filter(styleSheet => styleSheet.href === target.href)[0]\<close>\<close>

definition findStyleSheet :: "styleSheet list \<Rightarrow> element \<Rightarrow> styleSheet option" where
  "findStyleSheet sheets t = List.find (\<lambda>sh. sheetHref sh = Some (href t)) sheets"

definition loadHandler :: "opts \<Rightarrow> document \<Rightarrow> event option \<Rightarrow> state \<Rightarrow> outcome \<times> state" where
  "loadHandler opt doc e s =
     (case e of
        None \<Rightarrow> (Returned, s)
      | Some ev \<Rightarrow>
          (case getTargetUrl (eventTarget ev) of
             None \<Rightarrow> (Returned, s)
           | Some originalUrl \<Rightarrow>
               if originalUrl = [] then (Returned, s)
               else
                 (case eventTarget ev of
                    None \<Rightarrow> (Returned, s)
                  | Some t \<Rightarrow>
                      (case extractInfoFromUrl originalUrl (domain opt) s of
                         ((_, currentCollector), s1) \<Rightarrow>
                           let srcPath = fst (splitUrl originalUrl (domain opt)) in
                           if kind t \<noteq> LinkElement
                           then (Returned, callOnSuccess currentCollector originalUrl srcPath s1)
                           else
                             (case styleSheets doc of
                                None \<Rightarrow> (Returned, s1)
                              | Some sheets \<Rightarrow>
                                  (case getCssRules (findStyleSheet sheets t) of
                                     None \<Rightarrow> (Returned, s1)
                                   | Some rules \<Rightarrow>
                                       if length rules = 0 then errorHandler opt e s1
                                       else (Returned,
                                             callOnSuccess currentCollector originalUrl srcPath s1)))))))"

subsection \<open>The scan of the elements already in the document\<close>

text \<open>The synthesized event \<^verbatim>\<open>{ target: element, srcElement: element }\<close>.\<close>

definition elementEvent :: "element \<Rightarrow> event option" where
  "elementEvent el = Some \<lparr>target = Some el, srcElement = Some el\<rparr>"

text \<open>The three callbacks given to \<^verbatim>\<open>forEach\<close>.\<close>

definition scanScript :: "opts \<Rightarrow> element \<Rightarrow> state \<Rightarrow> outcome \<times> state" where
  "scanScript opt el s =
     (case getTargetUrl (Some el) of
        None \<Rightarrow> (Returned, s)
      | Some u \<Rightarrow>
          if u = [] then (Returned, s)
          else
            (case extractInfoFromUrl u (domain opt) s of
               ((currentDomain, currentCollector), s1) \<Rightarrow>
                 (case (currentCollector, currentDomain) of
                    (Some c, Some d) \<Rightarrow>
                      if d = [] then (Returned, s1)
                      else (Returned, recordSuccess c u s1)
                  | _ \<Rightarrow> (Returned, s1))))"

definition scanLink :: "opts \<Rightarrow> document \<Rightarrow> element \<Rightarrow> state \<Rightarrow> outcome \<times> state" where
  "scanLink opt doc el s =
     (case getTargetUrl (Some el) of
        None \<Rightarrow> (Returned, s)
      | Some u \<Rightarrow>
          if u = [] \<or> getAttribute el ''rel'' \<noteq> Some ''stylesheet'' then (Returned, s)
          else
            (case extractInfoFromUrl u (domain opt) s of
               ((currentDomain, currentCollector), s1) \<Rightarrow>
                 (case (currentCollector, currentDomain) of
                    (Some c, Some d) \<Rightarrow>
                      if d = [] then (Returned, s1)
                      else if hasAttribute el ignoreIdentifier then (Returned, s1)
                      else
                        (case styleSheets doc of
                           None \<Rightarrow> (Returned, s1)
                         | Some sheets \<Rightarrow>
                             (case findStyleSheet sheets el of
                                Some targetStyleSheet \<Rightarrow>
                                  (case getCssRules (Some targetStyleSheet) of
                                     None \<Rightarrow> errorHandler opt (elementEvent el) s1
                                   | Some rules \<Rightarrow>
                                       if length rules = 0
                                       then errorHandler opt (elementEvent el) s1
                                       else (Returned, recordSuccess c u s1))
                              | None \<Rightarrow> errorHandler opt (elementEvent el) s1))
                  | _ \<Rightarrow> (Returned, s1))))"

definition scanImage :: "opts \<Rightarrow> element \<Rightarrow> state \<Rightarrow> outcome \<times> state" where
  "scanImage opt el s =
     (case getTargetUrl (Some el) of
        None \<Rightarrow> (Returned, s)
      | Some u \<Rightarrow>
          if u = [] then (Returned, s)
          else
            (case extractInfoFromUrl u (domain opt) s of
               ((currentDomain, currentCollector), s1) \<Rightarrow>
                 (case (currentCollector, currentDomain) of
                    (Some c, Some d) \<Rightarrow>
                      if d = [] then (Returned, s1)
                      else if hasAttribute el ignoreIdentifier then (Returned, s1)
                      else if complete el \<and> (naturalWidth el = 0 \<or> naturalHeight el = 0)
                      then errorHandler opt (elementEvent el) s1
                      else if complete el then (Returned, recordSuccess c u s1)
                      else (Returned, s1)
                  | _ \<Rightarrow> (Returned, s1))))"

text \<open>\<^verbatim>\<open>forEach\<close>: a thrown error ends the loop and propagates.\<close>

fun forEach :: "(element \<Rightarrow> state \<Rightarrow> outcome \<times> state) \<Rightarrow> element list \<Rightarrow> state \<Rightarrow> outcome \<times> state" where
  "forEach f [] s = (Returned, s)"
| "forEach f (el # els) s =
     (case f el s of
        (Thrown, s') \<Rightarrow> (Thrown, s')
      | (Returned, s') \<Rightarrow> forEach f els s')"

text \<open>
  \<^verbatim>\<open>querySelectorAll\<close> with the selectors \<^verbatim>\<open>script[src]\<close>,
  \<^verbatim>\<open>link[rel="stylesheet"][href]\<close> and \<^verbatim>\<open>img[src]\<close>.
\<close>

definition selectScripts :: "document \<Rightarrow> element list" where
  "selectScripts doc =
     filter (\<lambda>el. kind el = ScriptElement \<and> hasAttribute el ''src'') (elements doc)"

definition selectLinks :: "document \<Rightarrow> element list" where
  "selectLinks doc =
     filter (\<lambda>el. kind el = LinkElement \<and> getAttribute el ''rel'' = Some ''stylesheet''
                  \<and> hasAttribute el ''href'') (elements doc)"

definition selectImages :: "document \<Rightarrow> element list" where
  "selectImages doc =
     filter (\<lambda>el. kind el = ImageElement \<and> hasAttribute el ''src'') (elements doc)"

definition processExistingElements :: "opts \<Rightarrow> document \<Rightarrow> state \<Rightarrow> outcome \<times> state" where
  "processExistingElements opt doc s =
     (case forEach (scanScript opt) (selectScripts doc) s of
        (Thrown, s1) \<Rightarrow> (Thrown, s1)
      | (Returned, s1) \<Rightarrow>
          (case forEach (scanLink opt doc) (selectLinks doc) s1 of
             (Thrown, s2) \<Rightarrow> (Thrown, s2)
           | (Returned, s2) \<Rightarrow> forEach (scanImage opt) (selectImages doc) s2))"

subsection \<open>A session\<close>

text \<open>
  What the hosting document delivers to the listeners registered by \<^verbatim>\<open>initSync\<close>: an
  error event, a load event (read against the document of that moment), or the moment
  at which the scan runs. An error thrown by a listener ends that invocation only.
\<close>

datatype notification =
    ErrorNotification "event option"
  | LoadNotification document "event option"
  | ScanNotification document

fun deliver :: "opts \<Rightarrow> notification \<Rightarrow> state \<Rightarrow> state" where
  "deliver opt (ErrorNotification e) s = snd (errorHandler opt e s)"
| "deliver opt (LoadNotification doc e) s = snd (loadHandler opt doc e s)"
| "deliver opt (ScanNotification doc) s = snd (processExistingElements opt doc s)"

fun session :: "opts \<Rightarrow> notification list \<Rightarrow> state \<Rightarrow> state" where
  "session opt [] s = s"
| "session opt (n # ns) s = session opt ns (deliver opt n s)"

subsection \<open>Notions used to state the properties\<close>

text \<open>
  The filter at the head of \<^verbatim>\<open>errorHandler\<close>: the target, URL and domain of a failure
  that reaches the increment of the retry count (a classified failure), None for an
  event that the handler drops.
\<close>

definition classifiedFailure :: "opts \<Rightarrow> event option \<Rightarrow> (element \<times> string \<times> string) option" where
  "classifiedFailure opt e =
     (case e of
        None \<Rightarrow> None
      | Some ev \<Rightarrow>
          (case eventTarget ev of
             None \<Rightarrow> None
           | Some t \<Rightarrow>
               (case getTargetUrl (Some t) of
                  None \<Rightarrow> None
                | Some u \<Rightarrow>
                    if u = [] then None
                    else
                      (case findDomain u (domain opt) of
                         None \<Rightarrow> None
                       | Some d \<Rightarrow>
                           if d = [] \<or> hasAttribute t ignoreIdentifier
                              \<or> (kind t = LinkElement \<and> getAttribute t ''rel'' \<noteq> Some ''stylesheet'')
                           then None
                           else Some (t, u, d)))))"

text \<open>The number of classified failures under domain \<open>d\<close> among the events \<open>es\<close>.\<close>

definition failuresUnder :: "opts \<Rightarrow> string \<Rightarrow> event option list \<Rightarrow> nat" where
  "failuresUnder opt d es =
     length (filter (\<lambda>e. map_option (\<lambda>(t, u, d'). d') (classifiedFailure opt e) = Some d) es)"

text \<open>The effects performed between a state and a later one.\<close>

definition emitted :: "state \<Rightarrow> state \<Rightarrow> effect list" where
  "emitted s s' = drop (length (effects s)) (effects s')"

fun isOnRetry :: "effect \<Rightarrow> bool" where
  "isOnRetry (OnRetry n u c) = True"
| "isOnRetry _ = False"

fun isOnSuccess :: "effect \<Rightarrow> bool" where
  "isOnSuccess (OnSuccess p) = True"
| "isOnSuccess _ = False"

fun isOnFail :: "effect \<Rightarrow> bool" where
  "isOnFail (OnFail p) = True"
| "isOnFail _ = False"

text \<open>
  The replace-element reloads of an element \<open>t\<close>. The element is recognised by its
  identifier, which is stable per element instance, so that the element as it is at a
  later notification counts as the same element.
\<close>

fun isReplaceReload :: "element \<Rightarrow> effect \<Rightarrow> bool" where
  "isReplaceReload t (LoadNextScript t' u) = (hashTarget t' = hashTarget t)"
| "isReplaceReload t (LoadNextLink t' u) = (hashTarget t' = hashTarget t)"
| "isReplaceReload t _ = False"

text \<open>The in-place reloads of the image \<open>i\<close>.\<close>

fun isReloadImage :: "element \<Rightarrow> effect \<Rightarrow> bool" where
  "isReloadImage i (ReloadImage i' u) = (i' = i)"
| "isReloadImage i _ = False"

definition replaceReloads :: "element \<Rightarrow> state \<Rightarrow> nat" where
  "replaceReloads t s = length (filter (isReplaceReload t) (effects s))"

text \<open>
  The stylesheet check of \<^verbatim>\<open>loadHandler\<close> finds a rule list that is accessible and not
  empty.
\<close>

definition hasRules :: "document \<Rightarrow> element \<Rightarrow> bool" where
  "hasRules doc t =
     (case styleSheets doc of
        None \<Rightarrow> False
      | Some sheets \<Rightarrow>
          (case getCssRules (findStyleSheet sheets t) of
             None \<Rightarrow> False
           | Some rules \<Rightarrow> rules \<noteq> []))"

text \<open>
  Between two states the Retry Ledger only grows, effects are only appended, and a
  replace-element reload of \<open>t\<close> is appended at most once, and only if the identifier of
  \<open>t\<close> entered the ledger in between.
\<close>

definition ledgerStep :: "element \<Rightarrow> state \<Rightarrow> state \<Rightarrow> bool" where
  "ledgerStep t s s' \<longleftrightarrow>
     retryCache s \<subseteq> retryCache s'
     \<and> (\<exists>xs. effects s' = effects s @ xs
            \<and> length (filter (isReplaceReload t) xs)
                 \<le> (if hashTarget t \<in> retryCache s' \<and> hashTarget t \<notin> retryCache s then 1 else 0))"

text \<open>A run of failure notifications.\<close>

definition failures :: "opts \<Rightarrow> event option list \<Rightarrow> state \<Rightarrow> state" where
  "failures opt es s = session opt (map ErrorNotification es) s"

subsection \<open>Example inputs\<close>

definition exampleDomain :: domainMap where
  "exampleDomain = [(''a.com'', ''b.com'')]"

text \<open>A hook that accepts the candidate URL.\<close>

definition exampleOpts :: opts where
  "exampleOpts = \<lparr>onRetry = (\<lambda>newUrl oldUrl c. ReturnsString newUrl),
                   domain = exampleDomain, maxRetryCount = 1\<rparr>"

definition plainElement :: "elementKind \<Rightarrow> string \<Rightarrow> (string \<times> string) list \<Rightarrow> element" where
  "plainElement k u attrs =
     \<lparr>nodeId = 0, kind = k, src = (if k = LinkElement then [] else u),
      href = (if k = LinkElement then u else []), attributes = attrs,
      complete = True, naturalWidth = 0, naturalHeight = 0\<rparr>"

definition exampleScript :: element where
  "exampleScript = plainElement ScriptElement ''http://a.com/x.js'' [(''src'', ''http://a.com/x.js'')]"

definition ignoredScript :: element where
  "ignoredScript =
     plainElement ScriptElement ''http://a.com/x.js''
       [(''src'', ''http://a.com/x.js''), (''data-assets-retry-ignore'', [])]"

definition foreignScript :: element where
  "foreignScript = plainElement ScriptElement ''http://c.org/y.js'' [(''src'', ''http://c.org/y.js'')]"

definition exampleImage :: element where
  "exampleImage = plainElement ImageElement ''http://a.com/i.png'' [(''src'', ''http://a.com/i.png'')]"

definition exampleLink :: element where
  "exampleLink =
     plainElement LinkElement ''http://a.com/s.css''
       [(''rel'', ''stylesheet''), (''href'', ''http://a.com/s.css'')]"

definition ignoredLink :: element where
  "ignoredLink =
     plainElement LinkElement ''http://a.com/s.css''
       [(''rel'', ''stylesheet''), (''href'', ''http://a.com/s.css''),
        (''data-assets-retry-ignore'', [])]"

text \<open>An ignore-marked image that is complete with no natural size.\<close>

definition ignoredImage :: element where
  "ignoredImage =
     plainElement ImageElement ''http://a.com/i.png''
       [(''src'', ''http://a.com/i.png''), (''data-assets-retry-ignore'', [])]"

definition iconLink :: element where
  "iconLink =
     plainElement LinkElement ''http://a.com/f.ico''
       [(''rel'', ''icon''), (''href'', ''http://a.com/f.ico'')]"

definition eventOn :: "element \<Rightarrow> event option" where
  "eventOn t = Some \<lparr>target = Some t, srcElement = None\<rparr>"

text \<open>
  A document with two stylesheets: another stylesheet, with rules, comes before the
  stylesheet of the example link, whose rule list is \<open>rules\<close>.
\<close>

definition otherSheet :: styleSheet where
  "otherSheet = \<lparr>sheetHref = Some ''http://a.com/other.css'', cssRules = Some [''p {}'']\<rparr>"

definition linkSheet :: "string list option \<Rightarrow> styleSheet" where
  "linkSheet rules = \<lparr>sheetHref = Some ''http://a.com/s.css'', cssRules = rules\<rparr>"

definition documentWith :: "string list option \<Rightarrow> document" where
  "documentWith rules = \<lparr>styleSheets = Some [otherSheet, linkSheet rules], elements = []\<rparr>"

text \<open>A hook that returns a value that is neither a string nor null.\<close>

definition brokenOpts :: opts where
  "brokenOpts = \<lparr>onRetry = (\<lambda>newUrl oldUrl c. ReturnsOther),
                  domain = exampleDomain, maxRetryCount = 1\<rparr>"

text \<open>A hook that vetoes every retry.\<close>

definition vetoOpts :: opts where
  "vetoOpts = \<lparr>onRetry = (\<lambda>newUrl oldUrl c. ReturnsNull),
                domain = exampleDomain, maxRetryCount = 1\<rparr>"

text \<open>Three retries allowed.\<close>

definition patientOpts :: opts where
  "patientOpts = \<lparr>onRetry = (\<lambda>newUrl oldUrl c. ReturnsString newUrl),
                   domain = exampleDomain, maxRetryCount = 3\<rparr>"

text \<open>No retry allowed.\<close>

definition zeroRetryOpts :: opts where
  "zeroRetryOpts = \<lparr>onRetry = (\<lambda>newUrl oldUrl c. ReturnsString newUrl),
                     domain = exampleDomain, maxRetryCount = 0\<rparr>"

text \<open>A domain without a fallback to switch to.\<close>

definition noFallbackOpts :: "int \<Rightarrow> opts" where
  "noFallbackOpts n = \<lparr>onRetry = (\<lambda>newUrl oldUrl c. ReturnsString newUrl),
                        domain = [(''a.com'', [])], maxRetryCount = n\<rparr>"

text \<open>The state after one failure of the example script.\<close>

definition failedOnce :: state where
  "failedOnce = snd (errorHandler exampleOpts (eventOn exampleScript) initialState)"

text \<open>
  A session in which the example script fails three times, with the load of a
  stylesheet without rules in between.
\<close>

definition scriptSession :: "notification list" where
  "scriptSession =
     [ErrorNotification (eventOn exampleScript), ErrorNotification (eventOn exampleScript),
      LoadNotification (documentWith (Some [])) (eventOn exampleLink),
      ErrorNotification (eventOn exampleScript)]"

text \<open>The state after one failure of the example image.\<close>

definition imageFailedOnce :: state where
  "imageFailedOnce = session patientOpts [ErrorNotification (eventOn exampleImage)] initialState"

section \<open>Properties\<close>

subsection \<open>The classifier and the collector store\<close>

lemma extract_fst: "fst (extractInfoFromUrl u dm s) = (findDomain u dm, findDomain u dm)"
  by (simp add: extractInfoFromUrl_def split: option.splits)

lemma extract_effects: "effects (snd (extractInfoFromUrl u dm s)) = effects s"
  by (simp add: extractInfoFromUrl_def split: option.splits)

lemma extract_cache: "retryCache (snd (extractInfoFromUrl u dm s)) = retryCache s"
  by (simp add: extractInfoFromUrl_def split: option.splits)

lemma extract_collectorAt: "collectorAt (snd (extractInfoFromUrl u dm s)) d = collectorAt s d"
  by (simp add: extractInfoFromUrl_def collectorAt_def split: option.splits)

lemma extract_unclassified:
  "findDomain u dm = None \<Longrightarrow> extractInfoFromUrl u dm s = ((None, None), s)"
  by (simp add: extractInfoFromUrl_def)

lemma extract_keeps:
  "retryCollector s d = Some c \<Longrightarrow> retryCollector (snd (extractInfoFromUrl u dm s)) d = Some c"
  by (auto simp: extractInfoFromUrl_def split: option.splits)

lemma extract_pair:
  "extractInfoFromUrl u dm s = ((findDomain u dm, findDomain u dm), snd (extractInfoFromUrl u dm s))"
  by (metis extract_fst prod.collapse)

lemma getTargetUrl_html: "getTargetUrl (Some t) = Some u \<Longrightarrow> isHTMLElement t"
  by (auto simp: isHTMLElement_def split: elementKind.splits)

lemma errorHandler_dropped:
  assumes "classifiedFailure opt e = None"
  shows "errorHandler opt e s = (Returned, s) \<or>
         (\<exists>u. errorHandler opt e s = (Returned, snd (extractInfoFromUrl u (domain opt) s)))"
proof (cases e)
  case None
  then show ?thesis by (simp add: errorHandler_def)
next
  case (Some ev)
  show ?thesis
  proof (cases "eventTarget ev")
    case None
    with Some show ?thesis by (simp add: errorHandler_def)
  next
    case tg: (Some t)
    show ?thesis
    proof (cases "getTargetUrl (Some t)")
      case None
      with Some tg show ?thesis by (simp add: errorHandler_def)
    next
      case url: (Some u)
      have html: "isHTMLElement t" using url by (rule getTargetUrl_html)
      show ?thesis
      proof (cases "u = []")
        case True
        with Some tg url show ?thesis by (simp add: errorHandler_def)
      next
        case False
        obtain s1 where ex: "extractInfoFromUrl u (domain opt) s =
            ((findDomain u (domain opt), findDomain u (domain opt)), s1)"
          using extract_pair by blast
        have "errorHandler opt e s = (Returned, s1)"
          using assms Some tg url False html ex
          by (auto simp: errorHandler_def classifiedFailure_def simp del: getTargetUrl.simps
                   split: option.splits if_splits)
        with ex show ?thesis by (metis snd_conv)
      qed
    qed
  qed
qed

lemma errorHandler_classified:
  assumes "classifiedFailure opt e = Some (t, u, d)"
  shows "errorHandler opt e s = retryOrFail opt t u d d (snd (extractInfoFromUrl u (domain opt) s))"
proof -
  from assms obtain ev where e: "e = Some ev" and tg: "eventTarget ev = Some t"
    and url: "getTargetUrl (Some t) = Some u" and ne: "u \<noteq> []"
    and dom: "findDomain u (domain opt) = Some d" and dne: "d \<noteq> []"
    and ign: "\<not> hasAttribute t ignoreIdentifier"
    and rel: "\<not> (kind t = LinkElement \<and> getAttribute t ''rel'' \<noteq> Some ''stylesheet'')"
    by (auto simp: classifiedFailure_def simp del: getTargetUrl.simps split: option.splits if_splits)
  obtain s1 where ex: "extractInfoFromUrl u (domain opt) s = ((Some d, Some d), s1)"
    using extract_pair [of u "domain opt" s] dom by auto
  then have "errorHandler opt e s = retryOrFail opt t u d d s1"
    using e tg url ne dne ign rel
    by (auto simp: errorHandler_def simp del: getTargetUrl.simps)
  with ex show ?thesis by simp
qed

lemma retryOrFail_final:
  assumes "int (retryCount (collectorAt s c)) + 1 > maxRetryCount opt"
  shows "retryOrFail opt t u d c s =
           (Returned, emit (OnFail (fst (splitUrl u (domain opt)))) (recordFailure c u s))"
  using assms by (simp add: retryOrFail_def Let_def recordFailure_def collectorAt_def)

lemma recordFailure_collectorAt:
  "collectorAt (recordFailure c u s) d =
     (if d = c then (collectorAt s c)\<lparr>retryCount := retryCount (collectorAt s c) + 1,
                                      failed := failed (collectorAt s c) @ [u]\<rparr>
      else collectorAt s d)"
  by (simp add: recordFailure_def collectorAt_def)

lemma emit_collectorAt: "collectorAt (emit x s) d = collectorAt s d"
  by (simp add: emit_def collectorAt_def)

lemma retryOrFail_noFallback:
  assumes "\<not> int (retryCount (collectorAt s c)) + 1 > maxRetryCount opt"
    and "\<not> truthy (map_of (domain opt) d)"
  shows "retryOrFail opt t u d c s = (Returned, recordFailure c u s)"
  using assms by (simp add: retryOrFail_def Let_def recordFailure_collectorAt)

lemma retryOrFail_retry:
  assumes "\<not> int (retryCount (collectorAt s c)) + 1 > maxRetryCount opt"
    and "map_of (domain opt) d = Some f" and "f \<noteq> []"
  shows "retryOrFail opt t u d c s =
     (let col = collectorAt (recordFailure c u s) c;
          s4 = emit (OnRetry (stringReplace u d f) u col) (recordFailure c u s)
      in case onRetry opt (stringReplace u d f) u col of
           ReturnsNull \<Rightarrow> (Returned, s4)
         | ReturnsOther \<Rightarrow> (Thrown, s4)
         | ReturnsString r \<Rightarrow> (Returned, reloadTarget t r s4))"
  using assms by (simp add: retryOrFail_def Let_def recordFailure_collectorAt)

subsection \<open>What a failure does to the collectors\<close>

lemma reloadTarget_collectorAt: "collectorAt (reloadTarget t r s) d = collectorAt s d"
  by (simp add: reloadTarget_def Let_def emit_def collectorAt_def)

lemma retryOrFail_collectorAt:
  "collectorAt (snd (retryOrFail opt t u d c s)) d' = collectorAt (recordFailure c u s) d'"
  by (simp add: retryOrFail_def Let_def emit_collectorAt reloadTarget_collectorAt
           split: option.splits retryReturn.splits)

lemma errorHandler_dropped_collectorAt:
  assumes "classifiedFailure opt e = None"
  shows "collectorAt (snd (errorHandler opt e s)) d' = collectorAt s d'"
  using errorHandler_dropped [OF assms, of s] by (auto simp: extract_collectorAt)

lemma errorHandler_classified_collectorAt:
  assumes "classifiedFailure opt e = Some (t, u, d)"
  shows "collectorAt (snd (errorHandler opt e s)) d' =
     (if d' = d then (collectorAt s d)\<lparr>retryCount := retryCount (collectorAt s d) + 1,
                                       failed := failed (collectorAt s d) @ [u]\<rparr>
      else collectorAt s d')"
  by (simp add: errorHandler_classified [OF assms] retryOrFail_collectorAt
        recordFailure_collectorAt extract_collectorAt)

lemma errorHandler_dropped_outcome:
  assumes "classifiedFailure opt e = None"
  shows "fst (errorHandler opt e s) = Returned"
  using errorHandler_dropped [OF assms, of s] by auto

subsection \<open>The configuration error\<close>

text \<open>
  C10. When the failure handler aborts with the configuration error, the mutation of the
  collector is not rolled back: the event was a classified failure, and in the state the
  aborted invocation leaves behind the retry count of its domain is one more than before
  and its URL is at the end of the failed list.
\<close>

theorem config_error_not_rolled_back:
  assumes "fst (errorHandler opt e s) = Thrown"
  shows "\<exists>t u d. classifiedFailure opt e = Some (t, u, d)
           \<and> retryCount (collectorAt (snd (errorHandler opt e s)) d) = retryCount (collectorAt s d) + 1
           \<and> failed (collectorAt (snd (errorHandler opt e s)) d) = failed (collectorAt s d) @ [u]"
proof (cases "classifiedFailure opt e")
  case None
  then have "fst (errorHandler opt e s) = Returned" by (rule errorHandler_dropped_outcome)
  with assms show ?thesis by simp
next
  case (Some tud)
  then obtain t u d where c: "classifiedFailure opt e = Some (t, u, d)" by (cases tud) auto
  show ?thesis
    using c by (simp add: errorHandler_classified_collectorAt [OF c])
qed

theorem config_error_not_rolled_back_witness:
  "fst (errorHandler brokenOpts (eventOn exampleScript) initialState) = Thrown
   \<and> (\<exists>t u d. classifiedFailure brokenOpts (eventOn exampleScript) = Some (t, u, d)
           \<and> retryCount (collectorAt (snd (errorHandler brokenOpts (eventOn exampleScript) initialState)) d)
               = retryCount (collectorAt initialState d) + 1
           \<and> failed (collectorAt (snd (errorHandler brokenOpts (eventOn exampleScript) initialState)) d)
               = failed (collectorAt initialState d) @ [u])"
proof -
  have h: "fst (errorHandler brokenOpts (eventOn exampleScript) initialState) = Thrown"
    by code_simp
  show ?thesis using h config_error_not_rolled_back [OF h] by blast
qed

subsection \<open>Events that the failure handler drops\<close>

lemma errorHandler_dropped_effects:
  assumes "classifiedFailure opt e = None"
  shows "effects (snd (errorHandler opt e s)) = effects s"
  using errorHandler_dropped [OF assms, of s] by (auto simp: extract_effects)

lemma errorHandler_dropped_cache:
  assumes "classifiedFailure opt e = None"
  shows "retryCache (snd (errorHandler opt e s)) = retryCache s"
  using errorHandler_dropped [OF assms, of s] by (auto simp: extract_cache)

lemma errorHandler_dropped_keeps:
  assumes "classifiedFailure opt e = None" and "retryCollector s d = Some c"
  shows "retryCollector (snd (errorHandler opt e s)) d = Some c"
  using errorHandler_dropped [OF assms(1), of s] assms(2) by (auto simp: extract_keeps)

text \<open>
  C9. A failure notification that is out of scope (no event or no identifiable target, a
  target without a loadable URL, a URL that does not classify under the Domain Map, an
  ignore-marked target, or a link whose rel attribute is not "stylesheet") makes the
  failure handler return with no callback invoked and no reload, the Retry Ledger
  unchanged, and the retry count and the succeeded and failed lists of every collector
  unchanged (every collector of the store is kept as it is; the classifier may have
  created the still empty collector of the URL's domain).
\<close>

theorem out_of_scope_failure_frame:
  assumes "e = None
     \<or> (\<exists>ev. e = Some ev \<and>
          (eventTarget ev = None
           \<or> (\<exists>t. eventTarget ev = Some t \<and>
                (\<not> truthy (getTargetUrl (Some t))
                 \<or> (\<exists>u. getTargetUrl (Some t) = Some u \<and> findDomain u (domain opt) = None)
                 \<or> hasAttribute t ignoreIdentifier
                 \<or> (kind t = LinkElement \<and> getAttribute t ''rel'' \<noteq> Some ''stylesheet'')))))"
  shows "fst (errorHandler opt e s) = Returned
       \<and> effects (snd (errorHandler opt e s)) = effects s
       \<and> retryCache (snd (errorHandler opt e s)) = retryCache s
       \<and> (\<forall>d. collectorAt (snd (errorHandler opt e s)) d = collectorAt s d)
       \<and> (\<forall>d c. retryCollector s d = Some c \<longrightarrow> retryCollector (snd (errorHandler opt e s)) d = Some c)"
proof -
  have "classifiedFailure opt e = None"
    using assms
    by (auto simp: classifiedFailure_def simp del: getTargetUrl.simps split: option.splits)
  then show ?thesis
    by (simp add: errorHandler_dropped_outcome errorHandler_dropped_effects
          errorHandler_dropped_cache errorHandler_dropped_collectorAt errorHandler_dropped_keeps)
qed


theorem out_of_scope_failure_frame_witness:
  "fst (errorHandler exampleOpts (eventOn iconLink) failedOnce) = Returned
   \<and> effects (snd (errorHandler exampleOpts (eventOn iconLink) failedOnce)) = effects failedOnce
   \<and> retryCache (snd (errorHandler exampleOpts (eventOn iconLink) failedOnce)) = retryCache failedOnce
   \<and> (\<forall>d. collectorAt (snd (errorHandler exampleOpts (eventOn iconLink) failedOnce)) d
            = collectorAt failedOnce d)
   \<and> retryCollector (snd (errorHandler exampleOpts (eventOn iconLink) failedOnce)) ''a.com''
       = Some \<lparr>retryCount = 1, succeeded = [], failed = [''http://a.com/x.js'']\<rparr>"
proof -
  have rel: "kind iconLink = LinkElement \<and> getAttribute iconLink ''rel'' \<noteq> Some ''stylesheet''"
    by code_simp
  have tg: "eventOn iconLink = Some \<lparr>target = Some iconLink, srcElement = None\<rparr>
            \<and> eventTarget \<lparr>target = Some iconLink, srcElement = None\<rparr> = Some iconLink"
    by (simp add: eventOn_def eventTarget_def)
  have h: "eventOn iconLink = None
     \<or> (\<exists>ev. eventOn iconLink = Some ev \<and>
          (eventTarget ev = None
           \<or> (\<exists>t. eventTarget ev = Some t \<and>
                (\<not> truthy (getTargetUrl (Some t))
                 \<or> (\<exists>u. getTargetUrl (Some t) = Some u \<and> findDomain u (domain exampleOpts) = None)
                 \<or> hasAttribute t ignoreIdentifier
                 \<or> (kind t = LinkElement \<and> getAttribute t ''rel'' \<noteq> Some ''stylesheet'')))))"
    using rel tg by blast
  have c: "retryCollector failedOnce ''a.com''
             = Some \<lparr>retryCount = 1, succeeded = [], failed = [''http://a.com/x.js'']\<rparr>"
    by code_simp
  note frame = out_of_scope_failure_frame [OF h, of failedOnce]
  from frame have keep: "retryCollector (snd (errorHandler exampleOpts (eventOn iconLink) failedOnce)) ''a.com''
       = Some \<lparr>retryCount = 1, succeeded = [], failed = [''http://a.com/x.js'']\<rparr>"
    using c by blast
  from frame keep show ?thesis by (elim conjE, intro conjI) assumption+
qed

subsection \<open>Literal search and replacement in URLs\<close>

lemma startsWith_iff: "startsWith d u \<longleftrightarrow> (\<exists>r. u = d @ r)"
  by (induction d arbitrary: u) (auto split: list.splits)

lemma indexOf_split:
  "indexOf d u = Some i \<Longrightarrow> u = take i u @ d @ drop (i + length d) u"
proof (induction u arbitrary: i)
  case Nil
  then show ?case by (simp split: if_splits)
next
  case (Cons c cs)
  show ?case
  proof (cases "startsWith d (c # cs)")
    case True
    then obtain r where "c # cs = d @ r" using startsWith_iff by blast
    moreover from True Cons.prems have "i = 0" by simp
    ultimately show ?thesis by simp
  next
    case False
    with Cons.prems obtain j where j: "indexOf d cs = Some j" and i: "i = Suc j" by auto
    from Cons.IH [OF j] show ?thesis using i by simp
  qed
qed

lemma indexOf_le: "indexOf d u = Some i \<Longrightarrow> i \<le> length u"
  by (induction u arbitrary: i) (auto split: if_splits)

lemma indexOf_first:
  "indexOf d u = Some i \<Longrightarrow> u = pre @ d @ post \<Longrightarrow> i \<le> length pre"
proof (induction u arbitrary: i pre)
  case Nil
  then show ?case by (simp split: if_splits)
next
  case (Cons c cs)
  show ?case
  proof (cases "startsWith d (c # cs)")
    case True
    with Cons.prems(1) show ?thesis by simp
  next
    case False
    with Cons.prems(1) obtain j where j: "indexOf d cs = Some j" and i: "i = Suc j" by auto
    from False have "pre \<noteq> []" using Cons.prems(2) startsWith_iff by fastforce
    then obtain p ps where pre: "pre = p # ps" by (cases pre) auto
    with Cons.prems(2) have "cs = ps @ d @ post" by simp
    from Cons.IH [OF j this] show ?thesis using i pre by simp
  qed
qed

lemma findDomain_occurs: "findDomain u dm = Some d \<Longrightarrow> \<exists>i. indexOf d u = Some i"
  by (auto simp: findDomain_def find_Some_iff)

lemma splitUrl_path:
  assumes "findDomain u dm = Some d"
  shows "\<exists>pre. u = pre @ d @ fst (splitUrl u dm)"
proof -
  from findDomain_occurs [OF assms] obtain i where i: "indexOf d u = Some i" by blast
  then have "fst (splitUrl u dm) = drop (i + length d) u"
    using assms by (simp add: splitUrl_def)
  with indexOf_split [OF i] show ?thesis by metis
qed

lemma stringReplace_first:
  assumes "indexOf d u = Some i"
  shows "\<exists>pre post. u = pre @ d @ post \<and> stringReplace u d f = pre @ f @ post
           \<and> (\<forall>pre' post'. u = pre' @ d @ post' \<longrightarrow> length pre \<le> length pre')"
proof -
  let ?pre = "take i u" and ?post = "drop (i + length d) u"
  have u: "u = ?pre @ d @ ?post" using assms by (rule indexOf_split)
  have r: "stringReplace u d f = ?pre @ f @ ?post" using assms by (simp add: stringReplace_def)
  have "i \<le> length u" using assms by (rule indexOf_le)
  then have len: "length ?pre = i" by simp
  have "\<forall>pre' post'. u = pre' @ d @ post' \<longrightarrow> length ?pre \<le> length pre'"
    using indexOf_first [OF assms] len by simp
  with u r show ?thesis by blast
qed

subsection \<open>Final retries\<close>

lemma recordFailure_effects: "effects (recordFailure c u s) = effects s"
  by (simp add: recordFailure_def)

lemma recordFailure_cache: "retryCache (recordFailure c u s) = retryCache s"
  by (simp add: recordFailure_def)

lemma emit_effects: "effects (emit x s) = effects s @ [x]"
  by (simp add: emit_def)

lemma emit_cache: "retryCache (emit x s) = retryCache s"
  by (simp add: emit_def)

lemma errorHandler_final:
  assumes "classifiedFailure opt e = Some (t, u, d)"
    and "maxRetryCount opt < int (retryCount (collectorAt s d)) + 1"
  shows "errorHandler opt e s =
           (Returned, emit (OnFail (fst (splitUrl u (domain opt))))
                        (recordFailure d u (snd (extractInfoFromUrl u (domain opt) s))))"
  using assms(2)
  by (simp add: errorHandler_classified [OF assms(1)] retryOrFail_final extract_collectorAt)

lemma errorHandler_noFallback:
  assumes "classifiedFailure opt e = Some (t, u, d)"
    and "\<not> maxRetryCount opt < int (retryCount (collectorAt s d)) + 1"
    and "\<not> truthy (map_of (domain opt) d)"
  shows "errorHandler opt e s =
           (Returned, recordFailure d u (snd (extractInfoFromUrl u (domain opt) s)))"
  using assms(2,3)
  by (simp add: errorHandler_classified [OF assms(1)] retryOrFail_noFallback extract_collectorAt)

lemma failures_Nil: "failures opt [] s = s"
  by (simp add: failures_def)

lemma failures_Cons: "failures opt (e # es) s = failures opt es (snd (errorHandler opt e s))"
  by (simp add: failures_def)

lemma errorHandler_retryCount:
  "retryCount (collectorAt (snd (errorHandler opt e s)) d) =
     retryCount (collectorAt s d) + failuresUnder opt d [e]"
proof (cases "classifiedFailure opt e")
  case None
  then show ?thesis
    by (simp add: errorHandler_dropped_collectorAt failuresUnder_def)
next
  case (Some tud)
  then obtain t u d' where c: "classifiedFailure opt e = Some (t, u, d')" by (cases tud) auto
  show ?thesis
    by (simp add: errorHandler_classified_collectorAt [OF c] failuresUnder_def c)
qed

lemma failuresUnder_Cons:
  "failuresUnder opt d (e # es) = failuresUnder opt d [e] + failuresUnder opt d es"
  by (simp add: failuresUnder_def)

lemma failures_retryCount:
  "retryCount (collectorAt (failures opt es s) d) =
     retryCount (collectorAt s d) + failuresUnder opt d es"
proof (induction es arbitrary: s)
  case Nil
  show ?case by (simp add: failures_Nil failuresUnder_def)
next
  case (Cons e es)
  show ?case
    by (simp add: failures_Cons Cons.IH errorHandler_retryCount failuresUnder_Cons [of opt d e es])
qed

text \<open>
  C6. When a classified failure makes the retry count exceed maxRetryCount, the handler
  invokes onFail with the logical path (the part of the URL that follows the domain),
  whether or not the Domain Map has a fallback for the domain, and does nothing else: no
  call of onRetry, no reload, the Retry Ledger unchanged. After that, every later
  classified failure under the same domain invokes onFail again, whatever failure
  notifications came in between. A failure that is not final under a domain without a
  fallback attempts no rewrite either.
\<close>

theorem final_failure_invokes_onFail:
  assumes "classifiedFailure opt e = Some (t, u, d)"
  shows "(maxRetryCount opt < int (retryCount (collectorAt s d)) + 1 \<longrightarrow>
            fst (errorHandler opt e s) = Returned
          \<and> effects (snd (errorHandler opt e s)) = effects s @ [OnFail (fst (splitUrl u (domain opt)))]
          \<and> retryCache (snd (errorHandler opt e s)) = retryCache s
          \<and> (\<exists>pre. u = pre @ d @ fst (splitUrl u (domain opt)))
          \<and> (\<forall>es e' t' u'. classifiedFailure opt e' = Some (t', u', d) \<longrightarrow>
                effects (snd (errorHandler opt e' (failures opt es (snd (errorHandler opt e s)))))
                  = effects (failures opt es (snd (errorHandler opt e s)))
                      @ [OnFail (fst (splitUrl u' (domain opt)))]))
       \<and> (\<not> maxRetryCount opt < int (retryCount (collectorAt s d)) + 1
            \<and> \<not> truthy (map_of (domain opt) d) \<longrightarrow>
            fst (errorHandler opt e s) = Returned
          \<and> effects (snd (errorHandler opt e s)) = effects s
          \<and> retryCache (snd (errorHandler opt e s)) = retryCache s)"
proof (intro conjI impI)
  assume fin: "maxRetryCount opt < int (retryCount (collectorAt s d)) + 1"
  note eq = errorHandler_final [OF assms fin]
  show "fst (errorHandler opt e s) = Returned" by (simp add: eq)
  show "effects (snd (errorHandler opt e s)) = effects s @ [OnFail (fst (splitUrl u (domain opt)))]"
    by (simp add: eq emit_effects recordFailure_effects extract_effects)
  show "retryCache (snd (errorHandler opt e s)) = retryCache s"
    by (simp add: eq emit_cache recordFailure_cache extract_cache)
  from assms have "findDomain u (domain opt) = Some d"
    by (auto simp: classifiedFailure_def simp del: getTargetUrl.simps split: option.splits if_splits)
  then show "\<exists>pre. u = pre @ d @ fst (splitUrl u (domain opt))" by (rule splitUrl_path)
  show "\<forall>es e' t' u'. classifiedFailure opt e' = Some (t', u', d) \<longrightarrow>
          effects (snd (errorHandler opt e' (failures opt es (snd (errorHandler opt e s)))))
            = effects (failures opt es (snd (errorHandler opt e s)))
                @ [OnFail (fst (splitUrl u' (domain opt)))]"
  proof (intro allI impI)
    fix es e' t' u'
    assume c': "classifiedFailure opt e' = Some (t', u', d)"
    let ?s = "failures opt es (snd (errorHandler opt e s))"
    have "retryCount (collectorAt ?s d) \<ge> retryCount (collectorAt s d) + 1"
      by (simp add: failures_retryCount errorHandler_classified_collectorAt [OF assms])
    with fin have fin': "maxRetryCount opt < int (retryCount (collectorAt ?s d)) + 1" by linarith
    show "effects (snd (errorHandler opt e' ?s)) = effects ?s @ [OnFail (fst (splitUrl u' (domain opt)))]"
      by (simp add: errorHandler_final [OF c' fin'] emit_effects recordFailure_effects extract_effects)
  qed
next
  assume h: "\<not> maxRetryCount opt < int (retryCount (collectorAt s d)) + 1
             \<and> \<not> truthy (map_of (domain opt) d)"
  then have eq: "errorHandler opt e s =
      (Returned, recordFailure d u (snd (extractInfoFromUrl u (domain opt) s)))"
    using errorHandler_noFallback [OF assms] by blast
  show "fst (errorHandler opt e s) = Returned" by (simp add: eq)
  show "effects (snd (errorHandler opt e s)) = effects s"
    by (simp add: eq recordFailure_effects extract_effects)
  show "retryCache (snd (errorHandler opt e s)) = retryCache s"
    by (simp add: eq recordFailure_cache extract_cache)
qed


theorem final_failure_invokes_onFail_witness:
  "classifiedFailure (noFallbackOpts 0) (eventOn exampleScript)
     = Some (exampleScript, ''http://a.com/x.js'', ''a.com'')
   \<and> maxRetryCount (noFallbackOpts 0) < int (retryCount (collectorAt initialState ''a.com'')) + 1
   \<and> effects (snd (errorHandler (noFallbackOpts 0) (eventOn exampleScript) initialState))
       = effects initialState @ [OnFail (fst (splitUrl ''http://a.com/x.js'' (domain (noFallbackOpts 0))))]
   \<and> effects (snd (errorHandler (noFallbackOpts 0) (eventOn exampleScript)
         (failures (noFallbackOpts 0) [eventOn exampleImage]
            (snd (errorHandler (noFallbackOpts 0) (eventOn exampleScript) initialState)))))
       = effects (failures (noFallbackOpts 0) [eventOn exampleImage]
            (snd (errorHandler (noFallbackOpts 0) (eventOn exampleScript) initialState)))
         @ [OnFail (fst (splitUrl ''http://a.com/x.js'' (domain (noFallbackOpts 0))))]
   \<and> \<not> maxRetryCount (noFallbackOpts 1) < int (retryCount (collectorAt initialState ''a.com'')) + 1
   \<and> \<not> truthy (map_of (domain (noFallbackOpts 1)) ''a.com'')
   \<and> effects (snd (errorHandler (noFallbackOpts 1) (eventOn exampleScript) initialState))
       = effects initialState"
proof -
  have c0: "classifiedFailure (noFallbackOpts 0) (eventOn exampleScript)
              = Some (exampleScript, ''http://a.com/x.js'', ''a.com'')"
    by code_simp
  have f0: "maxRetryCount (noFallbackOpts 0) < int (retryCount (collectorAt initialState ''a.com'')) + 1"
    by code_simp
  have c1: "classifiedFailure (noFallbackOpts 1) (eventOn exampleScript)
              = Some (exampleScript, ''http://a.com/x.js'', ''a.com'')"
    by code_simp
  have f1: "\<not> maxRetryCount (noFallbackOpts 1) < int (retryCount (collectorAt initialState ''a.com'')) + 1"
    by code_simp
  have n1: "\<not> truthy (map_of (domain (noFallbackOpts 1)) ''a.com'')"
    by code_simp
  show ?thesis
    using c0 f0 f1 n1 final_failure_invokes_onFail [OF c0, of initialState]
      final_failure_invokes_onFail [OF c1, of initialState]
    by blast
qed

subsection \<open>The return value of the onRetry hook\<close>

lemma reloadTarget_effects:
  "\<exists>rs. effects (reloadTarget t r s) = effects s @ rs
        \<and> set rs \<subseteq> {ReloadImage t r, LoadNextScript t r, LoadNextLink t r}"
  by (simp add: reloadTarget_def Let_def emit_def)

lemma reloadTarget_image:
  "kind t = ImageElement \<Longrightarrow> src t \<noteq> [] \<Longrightarrow>
     reloadTarget t r s = emit (ReloadImage t r) s"
  by (simp add: reloadTarget_def)

lemma reloadTarget_script:
  "kind t = ScriptElement \<Longrightarrow> src t \<noteq> [] \<Longrightarrow> \<not> truthy (getAttribute t hookedIdentifier) \<Longrightarrow>
     hashTarget t \<notin> retryCache s \<Longrightarrow>
     effects (reloadTarget t r s) = effects s @ [LoadNextScript t r]"
  by (simp add: reloadTarget_def Let_def emit_def)

lemma reloadTarget_link:
  "kind t = LinkElement \<Longrightarrow> href t \<noteq> [] \<Longrightarrow> \<not> truthy (getAttribute t hookedIdentifier) \<Longrightarrow>
     hashTarget t \<notin> retryCache s \<Longrightarrow>
     effects (reloadTarget t r s) = effects s @ [LoadNextLink t r]"
  by (simp add: reloadTarget_def Let_def emit_def)

lemma classifiedFailure_url:
  assumes "classifiedFailure opt e = Some (t, u, d)"
  shows "getTargetUrl (Some t) = Some u \<and> u \<noteq> [] \<and> findDomain u (domain opt) = Some d
         \<and> d \<noteq> [] \<and> \<not> hasAttribute t ignoreIdentifier"
  using assms
  by (auto simp: classifiedFailure_def simp del: getTargetUrl.simps split: option.splits if_splits)

lemma classifiedFailure_src:
  assumes "classifiedFailure opt e = Some (t, u, d)"
  shows "(kind t = ImageElement \<longrightarrow> src t \<noteq> [])
         \<and> (kind t = ScriptElement \<longrightarrow> src t \<noteq> [])
         \<and> (kind t = LinkElement \<longrightarrow> href t \<noteq> [])"
  using classifiedFailure_url [OF assms] by (auto split: elementKind.splits)

lemma errorHandler_retry:
  assumes "classifiedFailure opt e = Some (t, u, d)"
    and "\<not> maxRetryCount opt < int (retryCount (collectorAt s d)) + 1"
    and "map_of (domain opt) d = Some f" and "f \<noteq> []"
    and "s2 = recordFailure d u (snd (extractInfoFromUrl u (domain opt) s))"
    and "s4 = emit (OnRetry (stringReplace u d f) u (collectorAt s2 d)) s2"
  shows "errorHandler opt e s =
     (case onRetry opt (stringReplace u d f) u (collectorAt s2 d) of
           ReturnsNull \<Rightarrow> (Returned, s4)
         | ReturnsOther \<Rightarrow> (Thrown, s4)
         | ReturnsString r \<Rightarrow> (Returned, reloadTarget t r s4))"
  unfolding assms(5,6) using assms(2-4)
  by (simp add: errorHandler_classified [OF assms(1)] retryOrFail_retry extract_collectorAt Let_def)

lemma recordFailure_at:
  "collectorAt (recordFailure d u (snd (extractInfoFromUrl u' dm s))) d =
     (collectorAt s d)\<lparr>retryCount := retryCount (collectorAt s d) + 1,
                       failed := failed (collectorAt s d) @ [u]\<rparr>"
  by (simp add: recordFailure_collectorAt extract_collectorAt)

text \<open>
  C7. The return value of the caller's onRetry hook is authoritative. On a classified
  failure that is not final, under a domain with a fallback, the hook is called once with
  the candidate URL, the original URL and the collector. If it returns null, the handler
  returns with no reload and the Retry Ledger unchanged. If it returns a value that is
  neither a string nor null, the invocation ends in the thrown error, which the handler
  does not catch. If it returns a string, every reload of the invocation uses that
  string: an image is reloaded with it, and so is a script or a link that is neither
  hooked nor in the Retry Ledger.
\<close>

theorem onRetry_authoritative:
  assumes "classifiedFailure opt e = Some (t, u, d)"
    and "\<not> maxRetryCount opt < int (retryCount (collectorAt s d)) + 1"
    and "map_of (domain opt) d = Some f" and "f \<noteq> []"
    and "col = (collectorAt s d)\<lparr>retryCount := retryCount (collectorAt s d) + 1,
                                  failed := failed (collectorAt s d) @ [u]\<rparr>"
    and "ret = onRetry opt (stringReplace u d f) u col"
  shows "(ret = ReturnsNull \<longrightarrow>
            fst (errorHandler opt e s) = Returned
          \<and> effects (snd (errorHandler opt e s)) = effects s @ [OnRetry (stringReplace u d f) u col]
          \<and> retryCache (snd (errorHandler opt e s)) = retryCache s)
       \<and> (ret = ReturnsOther \<longrightarrow>
            fst (errorHandler opt e s) = Thrown
          \<and> effects (snd (errorHandler opt e s)) = effects s @ [OnRetry (stringReplace u d f) u col]
          \<and> retryCache (snd (errorHandler opt e s)) = retryCache s)
       \<and> (\<forall>r. ret = ReturnsString r \<longrightarrow>
            fst (errorHandler opt e s) = Returned
          \<and> (\<exists>rs. effects (snd (errorHandler opt e s))
                     = effects s @ OnRetry (stringReplace u d f) u col # rs
                 \<and> set rs \<subseteq> {ReloadImage t r, LoadNextScript t r, LoadNextLink t r}
                 \<and> (kind t = ImageElement \<longrightarrow> rs = [ReloadImage t r])
                 \<and> (kind t = ScriptElement \<and> \<not> truthy (getAttribute t hookedIdentifier)
                      \<and> hashTarget t \<notin> retryCache s \<longrightarrow> rs = [LoadNextScript t r])
                 \<and> (kind t = LinkElement \<and> \<not> truthy (getAttribute t hookedIdentifier)
                      \<and> hashTarget t \<notin> retryCache s \<longrightarrow> rs = [LoadNextLink t r])))"
proof -
  let ?s2 = "recordFailure d u (snd (extractInfoFromUrl u (domain opt) s))"
  let ?s4 = "emit (OnRetry (stringReplace u d f) u col) ?s2"
  have col: "collectorAt ?s2 d = col" by (simp add: recordFailure_at assms(5))
  note eq = errorHandler_retry [OF assms(1-4) refl refl, unfolded col]
  have e4: "effects ?s4 = effects s @ [OnRetry (stringReplace u d f) u col]"
    by (simp add: emit_effects recordFailure_effects extract_effects)
  have c4: "retryCache ?s4 = retryCache s"
    by (simp add: emit_cache recordFailure_cache extract_cache)
  have null: "ret = ReturnsNull \<longrightarrow>
            fst (errorHandler opt e s) = Returned
          \<and> effects (snd (errorHandler opt e s)) = effects s @ [OnRetry (stringReplace u d f) u col]
          \<and> retryCache (snd (errorHandler opt e s)) = retryCache s"
    using e4 c4 by (simp add: eq assms(6) [symmetric])
  have other: "ret = ReturnsOther \<longrightarrow>
            fst (errorHandler opt e s) = Thrown
          \<and> effects (snd (errorHandler opt e s)) = effects s @ [OnRetry (stringReplace u d f) u col]
          \<and> retryCache (snd (errorHandler opt e s)) = retryCache s"
    using e4 c4 by (simp add: eq assms(6) [symmetric])
  have str: "\<forall>r. ret = ReturnsString r \<longrightarrow>
            fst (errorHandler opt e s) = Returned
          \<and> (\<exists>rs. effects (snd (errorHandler opt e s))
                     = effects s @ OnRetry (stringReplace u d f) u col # rs
                 \<and> set rs \<subseteq> {ReloadImage t r, LoadNextScript t r, LoadNextLink t r}
                 \<and> (kind t = ImageElement \<longrightarrow> rs = [ReloadImage t r])
                 \<and> (kind t = ScriptElement \<and> \<not> truthy (getAttribute t hookedIdentifier)
                      \<and> hashTarget t \<notin> retryCache s \<longrightarrow> rs = [LoadNextScript t r])
                 \<and> (kind t = LinkElement \<and> \<not> truthy (getAttribute t hookedIdentifier)
                      \<and> hashTarget t \<notin> retryCache s \<longrightarrow> rs = [LoadNextLink t r]))"
  proof (intro allI impI)
    fix r assume r: "ret = ReturnsString r"
    then have res: "errorHandler opt e s = (Returned, reloadTarget t r ?s4)"
      by (simp add: eq assms(6) [symmetric])
    from reloadTarget_effects [of t r ?s4] obtain rs where
      rs: "effects (reloadTarget t r ?s4) = effects ?s4 @ rs"
      and sub: "set rs \<subseteq> {ReloadImage t r, LoadNextScript t r, LoadNextLink t r}" by blast
    note src = classifiedFailure_src [OF assms(1)]
    have img: "kind t = ImageElement \<longrightarrow> rs = [ReloadImage t r]"
    proof
      assume k: "kind t = ImageElement"
      with src have "effects (reloadTarget t r ?s4) = effects ?s4 @ [ReloadImage t r]"
        by (simp add: reloadTarget_image emit_effects)
      with rs show "rs = [ReloadImage t r]" by simp
    qed
    have scr: "kind t = ScriptElement \<and> \<not> truthy (getAttribute t hookedIdentifier)
                 \<and> hashTarget t \<notin> retryCache s \<longrightarrow> rs = [LoadNextScript t r]"
    proof
      assume k: "kind t = ScriptElement \<and> \<not> truthy (getAttribute t hookedIdentifier)
                 \<and> hashTarget t \<notin> retryCache s"
      with src c4 have "effects (reloadTarget t r ?s4) = effects ?s4 @ [LoadNextScript t r]"
        by (intro reloadTarget_script) simp_all
      with rs show "rs = [LoadNextScript t r]" by simp
    qed
    have lnk: "kind t = LinkElement \<and> \<not> truthy (getAttribute t hookedIdentifier)
                 \<and> hashTarget t \<notin> retryCache s \<longrightarrow> rs = [LoadNextLink t r]"
    proof
      assume k: "kind t = LinkElement \<and> \<not> truthy (getAttribute t hookedIdentifier)
                 \<and> hashTarget t \<notin> retryCache s"
      with src c4 have "effects (reloadTarget t r ?s4) = effects ?s4 @ [LoadNextLink t r]"
        by (intro reloadTarget_link) simp_all
      with rs show "rs = [LoadNextLink t r]" by simp
    qed
    show "fst (errorHandler opt e s) = Returned
          \<and> (\<exists>rs. effects (snd (errorHandler opt e s))
                     = effects s @ OnRetry (stringReplace u d f) u col # rs
                 \<and> set rs \<subseteq> {ReloadImage t r, LoadNextScript t r, LoadNextLink t r}
                 \<and> (kind t = ImageElement \<longrightarrow> rs = [ReloadImage t r])
                 \<and> (kind t = ScriptElement \<and> \<not> truthy (getAttribute t hookedIdentifier)
                      \<and> hashTarget t \<notin> retryCache s \<longrightarrow> rs = [LoadNextScript t r])
                 \<and> (kind t = LinkElement \<and> \<not> truthy (getAttribute t hookedIdentifier)
                      \<and> hashTarget t \<notin> retryCache s \<longrightarrow> rs = [LoadNextLink t r]))"
    proof (intro conjI exI [of _ rs])
      show "fst (errorHandler opt e s) = Returned" by (simp add: res)
      show "effects (snd (errorHandler opt e s)) = effects s @ OnRetry (stringReplace u d f) u col # rs"
        by (simp add: res rs e4)
    qed (rule sub img scr lnk)+
  qed
  show ?thesis by (intro conjI) (rule null, rule other, rule str)
qed


theorem onRetry_authoritative_witness:
  "(fst (errorHandler vetoOpts (eventOn exampleScript) initialState) = Returned
    \<and> effects (snd (errorHandler vetoOpts (eventOn exampleScript) initialState))
        = effects initialState
          @ [OnRetry (stringReplace ''http://a.com/x.js'' ''a.com'' ''b.com'') ''http://a.com/x.js''
               \<lparr>retryCount = 1, succeeded = [], failed = [''http://a.com/x.js'']\<rparr>]
    \<and> retryCache (snd (errorHandler vetoOpts (eventOn exampleScript) initialState))
        = retryCache initialState)
   \<and> fst (errorHandler brokenOpts (eventOn exampleScript) initialState) = Thrown
   \<and> (\<exists>rs. effects (snd (errorHandler exampleOpts (eventOn exampleScript) initialState))
              = effects initialState
                @ OnRetry (stringReplace ''http://a.com/x.js'' ''a.com'' ''b.com'') ''http://a.com/x.js''
                    \<lparr>retryCount = 1, succeeded = [], failed = [''http://a.com/x.js'']\<rparr> # rs
           \<and> rs = [LoadNextScript exampleScript ''http://b.com/x.js''])"
proof -
  let ?u = "''http://a.com/x.js''" and ?d = "''a.com''" and ?f = "''b.com''"
  let ?col = "\<lparr>retryCount = 1, succeeded = [], failed = [''http://a.com/x.js'']\<rparr>"
  have col: "?col = (collectorAt initialState ?d)\<lparr>retryCount := retryCount (collectorAt initialState ?d) + 1,
                      failed := failed (collectorAt initialState ?d) @ [?u]\<rparr>"
    by code_simp
  have cv: "classifiedFailure vetoOpts (eventOn exampleScript) = Some (exampleScript, ?u, ?d)"
    and cb: "classifiedFailure brokenOpts (eventOn exampleScript) = Some (exampleScript, ?u, ?d)"
    and ce: "classifiedFailure exampleOpts (eventOn exampleScript) = Some (exampleScript, ?u, ?d)"
    by code_simp+
  have nv: "\<not> maxRetryCount vetoOpts < int (retryCount (collectorAt initialState ?d)) + 1"
    and nb: "\<not> maxRetryCount brokenOpts < int (retryCount (collectorAt initialState ?d)) + 1"
    and ne: "\<not> maxRetryCount exampleOpts < int (retryCount (collectorAt initialState ?d)) + 1"
    by code_simp+
  have fv: "map_of (domain vetoOpts) ?d = Some ?f"
    and fb: "map_of (domain brokenOpts) ?d = Some ?f"
    and fe: "map_of (domain exampleOpts) ?d = Some ?f"
    by code_simp+
  have f: "?f \<noteq> []" by simp
  have rv: "onRetry vetoOpts (stringReplace ?u ?d ?f) ?u ?col = ReturnsNull"
    and rb: "onRetry brokenOpts (stringReplace ?u ?d ?f) ?u ?col = ReturnsOther"
    and re: "onRetry exampleOpts (stringReplace ?u ?d ?f) ?u ?col = ReturnsString ''http://b.com/x.js''"
    by code_simp+
  have k: "kind exampleScript = ScriptElement \<and> \<not> truthy (getAttribute exampleScript hookedIdentifier)
           \<and> hashTarget exampleScript \<notin> retryCache initialState"
    by code_simp
  note v = onRetry_authoritative [OF cv nv fv f col refl]
  note b = onRetry_authoritative [OF cb nb fb f col refl]
  note x = onRetry_authoritative [OF ce ne fe f col refl]
  note pv = v [THEN conjunct1, THEN mp, OF rv]
  note pb = b [THEN conjunct2, THEN conjunct1, THEN mp, OF rb, THEN conjunct1]
  note px = x [THEN conjunct2, THEN conjunct2, THEN spec, THEN mp, OF re, THEN conjunct2]
  from px obtain rs where
    rs: "effects (snd (errorHandler exampleOpts (eventOn exampleScript) initialState))
           = effects initialState @ OnRetry (stringReplace ?u ?d ?f) ?u ?col # rs"
    and "kind exampleScript = ScriptElement \<and> \<not> truthy (getAttribute exampleScript hookedIdentifier)
           \<and> hashTarget exampleScript \<notin> retryCache initialState
         \<longrightarrow> rs = [LoadNextScript exampleScript ''http://b.com/x.js'']"
    by blast
  with k have "rs = [LoadNextScript exampleScript ''http://b.com/x.js'']" by (rule_tac mp)
  with rs have ex: "\<exists>rs. effects (snd (errorHandler exampleOpts (eventOn exampleScript) initialState))
              = effects initialState @ OnRetry (stringReplace ?u ?d ?f) ?u ?col # rs
           \<and> rs = [LoadNextScript exampleScript ''http://b.com/x.js'']"
    by (intro exI [of _ rs] conjI)
  from pv pb ex show ?thesis by (elim conjE, intro conjI) assumption+
qed

subsection \<open>The first failure under a domain\<close>

lemma reload_no_onRetry:
  "set rs \<subseteq> {ReloadImage t r, LoadNextScript t r, LoadNextLink t r} \<Longrightarrow> filter isOnRetry rs = []"
  by (induction rs) auto

lemma errorHandler_retry_effects:
  assumes "classifiedFailure opt e = Some (t, u, d)"
    and "\<not> maxRetryCount opt < int (retryCount (collectorAt s d)) + 1"
    and "map_of (domain opt) d = Some f" and "f \<noteq> []"
    and "col = (collectorAt s d)\<lparr>retryCount := retryCount (collectorAt s d) + 1,
                                  failed := failed (collectorAt s d) @ [u]\<rparr>"
  shows "\<exists>rs. effects (snd (errorHandler opt e s)) = effects s @ OnRetry (stringReplace u d f) u col # rs
             \<and> filter isOnRetry rs = []"
proof -
  let ?s2 = "recordFailure d u (snd (extractInfoFromUrl u (domain opt) s))"
  let ?s4 = "emit (OnRetry (stringReplace u d f) u col) ?s2"
  have col: "collectorAt ?s2 d = col" by (simp add: recordFailure_at assms(5))
  note eq = errorHandler_retry [OF assms(1-4) refl refl, unfolded col]
  have e4: "effects ?s4 = effects s @ [OnRetry (stringReplace u d f) u col]"
    by (simp add: emit_effects recordFailure_effects extract_effects)
  show ?thesis
  proof (cases "onRetry opt (stringReplace u d f) u col")
    case ReturnsNull
    then show ?thesis by (simp add: eq e4)
  next
    case (ReturnsString r)
    then have res: "snd (errorHandler opt e s) = reloadTarget t r ?s4" by (simp add: eq)
    from reloadTarget_effects [of t r ?s4] obtain rs where
      "effects (reloadTarget t r ?s4) = effects ?s4 @ rs"
      and "set rs \<subseteq> {ReloadImage t r, LoadNextScript t r, LoadNextLink t r}" by blast
    then show ?thesis using reload_no_onRetry [of rs t r] by (simp add: res e4)
  next
    case ReturnsOther
    then show ?thesis by (simp add: eq e4)
  qed
qed

text \<open>
  C8, amended. For every domain D with a non-empty fallback F in the Domain Map, and a
  threshold maxRetryCount of at least 1, the first classified failure under D (the retry
  count of D is 0) produces exactly one call onRetry(candidate, original, collector), in
  which the candidate is the original URL with the first literal occurrence of D replaced
  by F and the retry count of the collector is 1.
\<close>

theorem first_failure_calls_onRetry:
  assumes "classifiedFailure opt e = Some (t, u, d)"
    and "map_of (domain opt) d = Some f" and "f \<noteq> []"
    and "retryCount (collectorAt s d) = 0"
    and "1 \<le> maxRetryCount opt"
  shows "\<exists>c pre post.
           filter isOnRetry (emitted s (snd (errorHandler opt e s))) = [OnRetry (pre @ f @ post) u c]
         \<and> retryCount c = 1
         \<and> c = collectorAt (snd (errorHandler opt e s)) d
         \<and> u = pre @ d @ post
         \<and> (\<forall>pre' post'. u = pre' @ d @ post' \<longrightarrow> length pre \<le> length pre')"
proof -
  let ?col = "(collectorAt s d)\<lparr>retryCount := retryCount (collectorAt s d) + 1,
                                 failed := failed (collectorAt s d) @ [u]\<rparr>"
  let ?s' = "snd (errorHandler opt e s)"
  have nf: "\<not> maxRetryCount opt < int (retryCount (collectorAt s d)) + 1"
    using assms(4,5) by simp
  have "\<exists>rs. effects ?s' = effects s @ OnRetry (stringReplace u d f) u ?col # rs
             \<and> filter isOnRetry rs = []"
    by (rule errorHandler_retry_effects [OF assms(1) nf assms(2,3) refl])
  then obtain rs where eff: "effects ?s' = effects s @ OnRetry (stringReplace u d f) u ?col # rs"
    and rs: "filter isOnRetry rs = []" by blast
  have em: "filter isOnRetry (emitted s ?s') = [OnRetry (stringReplace u d f) u ?col]"
    by (simp add: emitted_def eff rs)
  have c1: "retryCount ?col = 1" using assms(4) by simp
  have c2: "?col = collectorAt ?s' d"
    by (simp add: errorHandler_classified_collectorAt [OF assms(1)])
  from classifiedFailure_url [OF assms(1)] have "findDomain u (domain opt) = Some d" by simp
  then obtain i where "indexOf d u = Some i" using findDomain_occurs by blast
  from stringReplace_first [OF this, of f] obtain pre post where
    u: "u = pre @ d @ post" and r: "stringReplace u d f = pre @ f @ post"
    and m: "\<forall>pre' post'. u = pre' @ d @ post' \<longrightarrow> length pre \<le> length pre'" by blast
  show ?thesis
    using em c1 c2 u m unfolding r by (intro exI [of _ ?col] exI [of _ pre] exI [of _ post] conjI)
qed


theorem first_failure_calls_onRetry_witness:
  "\<exists>c pre post.
      filter isOnRetry (emitted initialState (snd (errorHandler exampleOpts (eventOn exampleScript) initialState)))
        = [OnRetry (pre @ ''b.com'' @ post) ''http://a.com/x.js'' c]
    \<and> retryCount c = 1
    \<and> c = collectorAt (snd (errorHandler exampleOpts (eventOn exampleScript) initialState)) ''a.com''
    \<and> ''http://a.com/x.js'' = pre @ ''a.com'' @ post"
proof -
  have c: "classifiedFailure exampleOpts (eventOn exampleScript)
             = Some (exampleScript, ''http://a.com/x.js'', ''a.com'')"
    by code_simp
  have f: "map_of (domain exampleOpts) ''a.com'' = Some ''b.com''" by code_simp
  have n: "''b.com'' \<noteq> []" by simp
  have z: "retryCount (collectorAt initialState ''a.com'') = 0" by code_simp
  have m: "1 \<le> maxRetryCount exampleOpts" by code_simp
  from first_failure_calls_onRetry [OF c f n z m] show ?thesis by blast
qed

text \<open>
  C8 as stated fails when maxRetryCount is 0: the first classified failure under a domain
  with a fallback is already final, so the handler invokes onFail and never calls onRetry.
\<close>

theorem first_failure_without_retry_counterexample:
  "classifiedFailure zeroRetryOpts (eventOn exampleScript)
     = Some (exampleScript, ''http://a.com/x.js'', ''a.com'')
   \<and> map_of (domain zeroRetryOpts) ''a.com'' = Some ''b.com''
   \<and> retryCount (collectorAt initialState ''a.com'') = 0
   \<and> effects (snd (errorHandler zeroRetryOpts (eventOn exampleScript) initialState)) = [OnFail ''/x.js'']"
  by code_simp

subsection \<open>The success handler\<close>

lemma extract_idem:
  "snd (extractInfoFromUrl u dm (snd (extractInfoFromUrl u dm s))) = snd (extractInfoFromUrl u dm s)"
  by (simp add: extractInfoFromUrl_def split: option.splits)

lemma loadHandler_unfold:
  assumes "e = Some ev" and "eventTarget ev = Some t"
    and "getTargetUrl (Some t) = Some u" and "u \<noteq> []"
    and "s1 = snd (extractInfoFromUrl u (domain opt) s)"
    and "p = fst (splitUrl u (domain opt))"
    and "cc = findDomain u (domain opt)"
  shows "loadHandler opt doc e s =
     (if kind t \<noteq> LinkElement then (Returned, callOnSuccess cc u p s1)
      else
        (case styleSheets doc of
           None \<Rightarrow> (Returned, s1)
         | Some sheets \<Rightarrow>
             (case getCssRules (findStyleSheet sheets t) of
                None \<Rightarrow> (Returned, s1)
              | Some rules \<Rightarrow>
                  if rules = [] then errorHandler opt e s1
                  else (Returned, callOnSuccess cc u p s1))))"
proof -
  have ex: "extractInfoFromUrl u (domain opt) s = ((cc, cc), s1)"
    unfolding assms(5,7) by (rule extract_pair)
  show ?thesis
    unfolding assms(1,6) using assms(2-4) ex
    by (auto simp: loadHandler_def Let_def simp del: getTargetUrl.simps split: option.splits)
qed

lemma loadHandler_noUrl:
  assumes "e = None \<or> (\<exists>ev. e = Some ev \<and> \<not> truthy (getTargetUrl (eventTarget ev)))"
  shows "loadHandler opt doc e s = (Returned, s)"
  using assms
  by (cases e) (auto simp: loadHandler_def simp del: getTargetUrl.simps split: option.splits)

lemma recordSuccess_collectorAt:
  "collectorAt (recordSuccess c u s) d =
     (if d = c then (collectorAt s c)\<lparr>succeeded := succeeded (collectorAt s c) @ [u]\<rparr>
      else collectorAt s d)"
  by (simp add: recordSuccess_def collectorAt_def)

lemma recordSuccess_effects: "effects (recordSuccess c u s) = effects s"
  by (simp add: recordSuccess_def)

lemma recordSuccess_cache: "retryCache (recordSuccess c u s) = retryCache s"
  by (simp add: recordSuccess_def)

lemma callOnSuccess_effects: "effects (callOnSuccess cc u p s) = effects s @ [OnSuccess p]"
  by (simp add: callOnSuccess_def emit_effects recordSuccess_effects split: option.splits)

lemma callOnSuccess_cache: "retryCache (callOnSuccess cc u p s) = retryCache s"
  by (simp add: callOnSuccess_def emit_cache recordSuccess_cache split: option.splits)

lemma callOnSuccess_collectorAt:
  "collectorAt (callOnSuccess cc u p s) d =
     (if cc = Some d then (collectorAt s d)\<lparr>succeeded := succeeded (collectorAt s d) @ [u]\<rparr>
      else collectorAt s d)"
  by (auto simp: callOnSuccess_def emit_collectorAt recordSuccess_collectorAt split: option.splits)

lemma callOnSuccess_None: "callOnSuccess None u p s = emit (OnSuccess p) s"
  by (simp add: callOnSuccess_def)

text \<open>The effects of a classified failure never include a call of onSuccess.\<close>

lemma retryOrFail_no_onSuccess:
  "\<exists>xs. effects (snd (retryOrFail opt t u d c s)) = effects s @ xs \<and> filter isOnSuccess xs = []"
proof -
  have r: "\<And>r s. \<exists>rs. effects (reloadTarget t r s) = effects s @ rs \<and> filter isOnSuccess rs = []"
    by (simp add: reloadTarget_def Let_def emit_def)
  show ?thesis
  proof (cases "\<exists>r. onRetry opt (stringReplace u d (the (map_of (domain opt) d))) u
                       (collectorAt (recordFailure c u s) c) = ReturnsString r")
    case False
    then show ?thesis
      by (cases "onRetry opt (stringReplace u d (the (map_of (domain opt) d))) u
                       (collectorAt (recordFailure c u s) c)")
         (auto simp: retryOrFail_def Let_def emit_effects recordFailure_effects emit_collectorAt
               split: option.splits)
  next
    case True
    then obtain r where ret: "onRetry opt (stringReplace u d (the (map_of (domain opt) d))) u
                       (collectorAt (recordFailure c u s) c) = ReturnsString r" by blast
    show ?thesis
    proof (cases "\<not> truthy (map_of (domain opt) d)
                  \<or> maxRetryCount opt < int (retryCount (collectorAt (recordFailure c u s) c))")
      case True
      then show ?thesis
        by (auto simp: retryOrFail_def Let_def emit_effects recordFailure_effects)
    next
      case False
      then obtain f where f: "map_of (domain opt) d = Some f" by (cases "map_of (domain opt) d") auto
      let ?s4 = "emit (OnRetry (stringReplace u d f) u (collectorAt (recordFailure c u s) c))
                   (recordFailure c u s)"
      have "snd (retryOrFail opt t u d c s) = reloadTarget t r ?s4"
        using False f ret by (simp add: retryOrFail_def Let_def)
      moreover from r [of r ?s4] obtain rs where
        "effects (reloadTarget t r ?s4) = effects ?s4 @ rs" "filter isOnSuccess rs = []" by blast
      ultimately show ?thesis by (simp add: emit_effects recordFailure_effects)
    qed
  qed
qed

lemma errorHandler_no_onSuccess:
  "\<exists>xs. effects (snd (errorHandler opt e s)) = effects s @ xs \<and> filter isOnSuccess xs = []"
proof (cases "classifiedFailure opt e")
  case None
  then show ?thesis by (simp add: errorHandler_dropped_effects)
next
  case (Some tud)
  then obtain t u d where c: "classifiedFailure opt e = Some (t, u, d)" by (cases tud) auto
  from retryOrFail_no_onSuccess [of opt t u d d "snd (extractInfoFromUrl u (domain opt) s)"]
  show ?thesis by (simp add: errorHandler_classified [OF c] extract_effects)
qed

text \<open>\<^verbatim>\<open>xs.filter(p)[0]\<close>, when there is such an element.\<close>

lemma find_first_of_filter: "filter P xs = x # rest \<Longrightarrow> List.find P xs = Some x"
  by (induction xs) (auto split: if_splits)

lemma classifiedFailure_event:
  assumes "classifiedFailure opt e = Some (t, u, d)"
  shows "\<exists>ev. e = Some ev \<and> eventTarget ev = Some t"
  using assms
  by (auto simp: classifiedFailure_def simp del: getTargetUrl.simps split: option.splits if_splits)

lemma classifiedFailure_again:
  assumes "classifiedFailure opt e = Some (t, u, d)"
  shows "errorHandler opt e (snd (extractInfoFromUrl u (domain opt) s)) = errorHandler opt e s"
  by (simp add: errorHandler_classified [OF assms] extract_idem)

text \<open>
  C5. On a load-success notification for a stylesheet link that the failure handler
  classifies (URL under a domain of the map, relation "stylesheet", not ignore-marked),
  let \<open>sh\<close> be its stylesheet object: the first of the document's stylesheets whose
  \<^verbatim>\<open>href\<close> is the \<^verbatim>\<open>href\<close> of the link. If the rule list of \<open>sh\<close> is accessible and empty, the
  success handler does what the failure handler does on that event, so the retry count is
  incremented and the URL appended to failed, while succeeded is unchanged and onSuccess
  is not invoked; if the rule list is inaccessible, the handler does nothing; if it is
  not empty, the URL is appended to succeeded and onSuccess is invoked with the logical
  path.
\<close>

theorem stylesheet_success_verified:
  assumes "classifiedFailure opt e = Some (t, u, d)" and "kind t = LinkElement"
    and "styleSheets doc = Some sheets"
    and "filter (\<lambda>x. sheetHref x = Some (href t)) sheets = sh # rest"
  shows "(cssRules sh = Some [] \<longrightarrow>
            loadHandler opt doc e s = errorHandler opt e s
          \<and> retryCount (collectorAt (snd (loadHandler opt doc e s)) d) = retryCount (collectorAt s d) + 1
          \<and> failed (collectorAt (snd (loadHandler opt doc e s)) d) = failed (collectorAt s d) @ [u]
          \<and> succeeded (collectorAt (snd (loadHandler opt doc e s)) d) = succeeded (collectorAt s d)
          \<and> filter isOnSuccess (emitted s (snd (loadHandler opt doc e s))) = [])
       \<and> (cssRules sh = None \<longrightarrow>
            fst (loadHandler opt doc e s) = Returned
          \<and> effects (snd (loadHandler opt doc e s)) = effects s
          \<and> retryCache (snd (loadHandler opt doc e s)) = retryCache s
          \<and> (\<forall>d'. collectorAt (snd (loadHandler opt doc e s)) d' = collectorAt s d'))
       \<and> (\<forall>rules. cssRules sh = Some rules \<and> rules \<noteq> [] \<longrightarrow>
            fst (loadHandler opt doc e s) = Returned
          \<and> effects (snd (loadHandler opt doc e s))
              = effects s @ [OnSuccess (fst (splitUrl u (domain opt)))]
          \<and> collectorAt (snd (loadHandler opt doc e s)) d
              = (collectorAt s d)\<lparr>succeeded := succeeded (collectorAt s d) @ [u]\<rparr>
          \<and> retryCache (snd (loadHandler opt doc e s)) = retryCache s)"
proof -
  from classifiedFailure_event [OF assms(1)] obtain ev where
    e: "e = Some ev" and tg: "eventTarget ev = Some t" by blast
  note url = classifiedFailure_url [OF assms(1)]
  have found: "findStyleSheet sheets t = Some sh"
    unfolding findStyleSheet_def using assms(4) by (rule find_first_of_filter)
  let ?s1 = "snd (extractInfoFromUrl u (domain opt) s)"
  let ?p = "fst (splitUrl u (domain opt))"
  have unf: "loadHandler opt doc e s =
      (case cssRules sh of
         None \<Rightarrow> (Returned, ?s1)
       | Some rules \<Rightarrow>
           if rules = [] then errorHandler opt e ?s1
           else (Returned, callOnSuccess (Some d) u ?p ?s1))"
    using url assms(2,3) found
    by (auto simp: loadHandler_unfold [OF e tg _ _ refl refl refl, of u] simp del: getTargetUrl.simps
             split: option.splits)
  have empty: "cssRules sh = Some [] \<longrightarrow>
            loadHandler opt doc e s = errorHandler opt e s
          \<and> retryCount (collectorAt (snd (loadHandler opt doc e s)) d) = retryCount (collectorAt s d) + 1
          \<and> failed (collectorAt (snd (loadHandler opt doc e s)) d) = failed (collectorAt s d) @ [u]
          \<and> succeeded (collectorAt (snd (loadHandler opt doc e s)) d) = succeeded (collectorAt s d)
          \<and> filter isOnSuccess (emitted s (snd (loadHandler opt doc e s))) = []"
  proof
    assume "cssRules sh = Some []"
    then have eq: "loadHandler opt doc e s = errorHandler opt e s"
      by (simp add: unf classifiedFailure_again [OF assms(1)])
    from errorHandler_no_onSuccess [of opt e s] have "filter isOnSuccess (emitted s (snd (errorHandler opt e s))) = []"
      by (auto simp: emitted_def)
    then show "loadHandler opt doc e s = errorHandler opt e s
          \<and> retryCount (collectorAt (snd (loadHandler opt doc e s)) d) = retryCount (collectorAt s d) + 1
          \<and> failed (collectorAt (snd (loadHandler opt doc e s)) d) = failed (collectorAt s d) @ [u]
          \<and> succeeded (collectorAt (snd (loadHandler opt doc e s)) d) = succeeded (collectorAt s d)
          \<and> filter isOnSuccess (emitted s (snd (loadHandler opt doc e s))) = []"
      by (simp add: eq errorHandler_classified_collectorAt [OF assms(1)])
  qed
  have null: "cssRules sh = None \<longrightarrow>
            fst (loadHandler opt doc e s) = Returned
          \<and> effects (snd (loadHandler opt doc e s)) = effects s
          \<and> retryCache (snd (loadHandler opt doc e s)) = retryCache s
          \<and> (\<forall>d'. collectorAt (snd (loadHandler opt doc e s)) d' = collectorAt s d')"
    by (simp add: unf extract_effects extract_cache extract_collectorAt)
  have rules: "\<forall>rules. cssRules sh = Some rules \<and> rules \<noteq> [] \<longrightarrow>
            fst (loadHandler opt doc e s) = Returned
          \<and> effects (snd (loadHandler opt doc e s))
              = effects s @ [OnSuccess (fst (splitUrl u (domain opt)))]
          \<and> collectorAt (snd (loadHandler opt doc e s)) d
              = (collectorAt s d)\<lparr>succeeded := succeeded (collectorAt s d) @ [u]\<rparr>
          \<and> retryCache (snd (loadHandler opt doc e s)) = retryCache s"
    by (simp add: unf callOnSuccess_effects callOnSuccess_cache callOnSuccess_collectorAt
          extract_effects extract_cache extract_collectorAt)
  show ?thesis by (intro conjI) (rule empty, rule null, rule rules)
qed


theorem stylesheet_success_verified_witness:
  "loadHandler exampleOpts (documentWith (Some [])) (eventOn exampleLink) initialState
     = errorHandler exampleOpts (eventOn exampleLink) initialState
   \<and> retryCount (collectorAt (snd (loadHandler exampleOpts (documentWith (Some [])) (eventOn exampleLink) initialState)) ''a.com'')
       = retryCount (collectorAt initialState ''a.com'') + 1
   \<and> failed (collectorAt (snd (loadHandler exampleOpts (documentWith (Some [])) (eventOn exampleLink) initialState)) ''a.com'')
       = failed (collectorAt initialState ''a.com'') @ [''http://a.com/s.css'']
   \<and> succeeded (collectorAt (snd (loadHandler exampleOpts (documentWith (Some [])) (eventOn exampleLink) initialState)) ''a.com'')
       = succeeded (collectorAt initialState ''a.com'')
   \<and> filter isOnSuccess (emitted initialState
         (snd (loadHandler exampleOpts (documentWith (Some [])) (eventOn exampleLink) initialState))) = []
   \<and> effects (snd (loadHandler exampleOpts (documentWith None) (eventOn exampleLink) initialState))
       = effects initialState
   \<and> effects (snd (loadHandler exampleOpts (documentWith (Some [''body {}''])) (eventOn exampleLink) initialState))
       = effects initialState @ [OnSuccess (fst (splitUrl ''http://a.com/s.css'' (domain exampleOpts)))]
   \<and> collectorAt (snd (loadHandler exampleOpts (documentWith (Some [''body {}''])) (eventOn exampleLink) initialState)) ''a.com''
       = (collectorAt initialState ''a.com'')
           \<lparr>succeeded := succeeded (collectorAt initialState ''a.com'') @ [''http://a.com/s.css'']\<rparr>"
proof -
  have c: "classifiedFailure exampleOpts (eventOn exampleLink)
             = Some (exampleLink, ''http://a.com/s.css'', ''a.com'')"
    by code_simp
  have k: "kind exampleLink = LinkElement" by code_simp
  have d: "\<And>r. styleSheets (documentWith r) = Some [otherSheet, linkSheet r]"
    by (simp add: documentWith_def)
  have f: "\<And>r. filter (\<lambda>x. sheetHref x = Some (href exampleLink)) [otherSheet, linkSheet r]
             = linkSheet r # []"
    by (simp add: otherSheet_def linkSheet_def exampleLink_def plainElement_def)
  have r1: "cssRules (linkSheet (Some [])) = Some []"
    and r2: "cssRules (linkSheet None) = None"
    and r3: "cssRules (linkSheet (Some [''body {}''])) = Some [''body {}''] \<and> [''body {}''] \<noteq> []"
    by (simp_all add: linkSheet_def)
  note empty = stylesheet_success_verified [OF c k d f, of "Some []" initialState,
      THEN conjunct1, THEN mp, OF r1]
  note null = stylesheet_success_verified [OF c k d f, of None initialState,
      THEN conjunct2, THEN conjunct1, THEN mp, OF r2]
  note rules = stylesheet_success_verified [OF c k d f, of "Some [''body {}'']" initialState,
      THEN conjunct2, THEN conjunct2, THEN spec, of "[''body {}'']", THEN mp, OF r3]
  from empty null rules show ?thesis by (elim conjE, intro conjI) assumption+
qed

subsection \<open>URLs outside the Domain Map\<close>

lemma unclassified_dropped:
  assumes "e = Some ev" and "eventTarget ev = Some t"
    and "getTargetUrl (Some t) = Some u" and "findDomain u (domain opt) = None"
  shows "classifiedFailure opt e = None"
  using assms by (simp add: classifiedFailure_def del: getTargetUrl.simps)

text \<open>
  C1, amended. For every load-failure notification whose URL's domain is not a key of the
  Domain Map, the failure handler returns with the state unchanged: no collector is
  created and no callback is invoked. For every load-success notification with such a
  URL, no collector is created, the Retry Ledger is unchanged and neither onRetry nor
  onFail is invoked; but the success handler does not short-circuit on the
  classification: when the target is a script or an image, or a link whose stylesheet has
  an accessible rule list that is not empty, it invokes onSuccess, with the logical path
  that splitUrl gives for the URL.
\<close>

theorem unclassified_notifications:
  assumes "e = Some ev" and "eventTarget ev = Some t"
    and "getTargetUrl (Some t) = Some u" and "findDomain u (domain opt) = None"
  shows "errorHandler opt e s = (Returned, s)
       \<and> fst (loadHandler opt doc e s) = Returned
       \<and> retryCollector (snd (loadHandler opt doc e s)) = retryCollector s
       \<and> retryCache (snd (loadHandler opt doc e s)) = retryCache s
       \<and> effects (snd (loadHandler opt doc e s))
           = effects s @ (if u \<noteq> [] \<and> (kind t \<noteq> LinkElement \<or> hasRules doc t)
                          then [OnSuccess (fst (splitUrl u (domain opt)))] else [])"
proof -
  have ex: "\<And>s. extractInfoFromUrl u (domain opt) s = ((None, None), s)"
    using assms(4) by (rule extract_unclassified)
  have err: "\<And>s. errorHandler opt e s = (Returned, s)"
    using assms(1-3) ex by (simp add: errorHandler_def del: getTargetUrl.simps)
  have load: "loadHandler opt doc e s =
      (Returned, if u \<noteq> [] \<and> (kind t \<noteq> LinkElement \<or> hasRules doc t)
                 then emit (OnSuccess (fst (splitUrl u (domain opt)))) s else s)"
  proof (cases "u = []")
    case True
    then show ?thesis using assms(1-3) by (simp add: loadHandler_noUrl del: getTargetUrl.simps)
  next
    case False
    show ?thesis
      using assms(4) False
      by (auto simp: loadHandler_unfold [OF assms(1-3) False refl refl refl] ex err
            callOnSuccess_None hasRules_def split: option.splits)
  qed
  show ?thesis
    by (simp add: err load emit_def)
qed

theorem unclassified_notifications_witness:
  "errorHandler exampleOpts (eventOn foreignScript) failedOnce = (Returned, failedOnce)
   \<and> fst (loadHandler exampleOpts (documentWith None) (eventOn foreignScript) failedOnce) = Returned
   \<and> retryCollector (snd (loadHandler exampleOpts (documentWith None) (eventOn foreignScript) failedOnce))
       = retryCollector failedOnce
   \<and> retryCache (snd (loadHandler exampleOpts (documentWith None) (eventOn foreignScript) failedOnce))
       = retryCache failedOnce
   \<and> effects (snd (loadHandler exampleOpts (documentWith None) (eventOn foreignScript) failedOnce))
       = effects failedOnce @ [OnSuccess (fst (splitUrl ''http://c.org/y.js'' (domain exampleOpts)))]"
proof -
  have e: "eventOn foreignScript = Some \<lparr>target = Some foreignScript, srcElement = None\<rparr>"
    by (simp add: eventOn_def)
  have t: "eventTarget \<lparr>target = Some foreignScript, srcElement = None\<rparr> = Some foreignScript"
    by (simp add: eventTarget_def)
  have u: "getTargetUrl (Some foreignScript) = Some ''http://c.org/y.js''" by code_simp
  have n: "findDomain ''http://c.org/y.js'' (domain exampleOpts) = None" by code_simp
  have k: "''http://c.org/y.js'' \<noteq> [] \<and> (kind foreignScript \<noteq> LinkElement
             \<or> hasRules (documentWith None) foreignScript)"
    by code_simp
  from unclassified_notifications [OF e t u n, of failedOnce "documentWith None"] k
  show ?thesis by simp
qed

text \<open>
  C1 as stated fails: the load of a script from a domain that is not in the Domain Map
  invokes onSuccess.
\<close>

theorem unclassified_success_counterexample:
  "getTargetUrl (Some foreignScript) = Some ''http://c.org/y.js''
   \<and> findDomain ''http://c.org/y.js'' (domain exampleOpts) = None
   \<and> effects (snd (loadHandler exampleOpts (documentWith None) (eventOn foreignScript) initialState))
       = [OnSuccess (fst (splitUrl ''http://c.org/y.js'' (domain exampleOpts)))]"
  by code_simp

subsection \<open>The ignore marker\<close>

lemma ignored_dropped:
  assumes "hasAttribute t ignoreIdentifier" and "e = Some ev" and "eventTarget ev = Some t"
  shows "classifiedFailure opt e = None"
  using assms
  by (simp add: classifiedFailure_def del: getTargetUrl.simps split: option.splits)

lemma scanLink_ignored:
  assumes "hasAttribute el ignoreIdentifier"
  shows "scanLink opt doc el s = (Returned, s) \<or>
         (\<exists>u. scanLink opt doc el s = (Returned, snd (extractInfoFromUrl u (domain opt) s)))"
proof (cases "getTargetUrl (Some el)")
  case None
  then show ?thesis by (simp add: scanLink_def del: getTargetUrl.simps)
next
  case (Some u)
  obtain s1 where ex: "extractInfoFromUrl u (domain opt) s =
      ((findDomain u (domain opt), findDomain u (domain opt)), s1)"
    using extract_pair by blast
  have "scanLink opt doc el s = (Returned, s) \<or> scanLink opt doc el s = (Returned, s1)"
    using Some ex assms
    by (auto simp: scanLink_def simp del: getTargetUrl.simps split: option.splits)
  with ex show ?thesis by (metis snd_conv)
qed

lemma scanImage_ignored:
  assumes "hasAttribute el ignoreIdentifier"
  shows "scanImage opt el s = (Returned, s) \<or>
         (\<exists>u. scanImage opt el s = (Returned, snd (extractInfoFromUrl u (domain opt) s)))"
proof (cases "getTargetUrl (Some el)")
  case None
  then show ?thesis by (simp add: scanImage_def del: getTargetUrl.simps)
next
  case (Some u)
  obtain s1 where ex: "extractInfoFromUrl u (domain opt) s =
      ((findDomain u (domain opt), findDomain u (domain opt)), s1)"
    using extract_pair by blast
  have "scanImage opt el s = (Returned, s) \<or> scanImage opt el s = (Returned, s1)"
    using Some ex assms
    by (auto simp: scanImage_def simp del: getTargetUrl.simps split: option.splits)
  with ex show ?thesis by (metis snd_conv)
qed

lemma scanLink_ignored_cache:
  assumes "hasAttribute el ignoreIdentifier"
  shows "retryCache (snd (scanLink opt doc el s)) = retryCache s"
  using scanLink_ignored [OF assms, of opt doc s] by (auto simp: extract_cache)

lemma scanImage_ignored_cache:
  assumes "hasAttribute el ignoreIdentifier"
  shows "retryCache (snd (scanImage opt el s)) = retryCache s"
  using scanImage_ignored [OF assms, of opt s] by (auto simp: extract_cache)

lemma loadHandler_ignored_exact:
  assumes "hasAttribute t ignoreIdentifier" and "e = Some ev" and "eventTarget ev = Some t"
    and "getTargetUrl (Some t) = Some u"
    and "rec = (u \<noteq> [] \<and> (kind t \<noteq> LinkElement \<or> hasRules doc t))"
  shows "fst (loadHandler opt doc e s) = Returned
       \<and> retryCache (snd (loadHandler opt doc e s)) = retryCache s
       \<and> effects (snd (loadHandler opt doc e s))
           = effects s @ (if rec then [OnSuccess (fst (splitUrl u (domain opt)))] else [])
       \<and> (\<forall>d. collectorAt (snd (loadHandler opt doc e s)) d
              = (if rec \<and> findDomain u (domain opt) = Some d
                 then (collectorAt s d)\<lparr>succeeded := succeeded (collectorAt s d) @ [u]\<rparr>
                 else collectorAt s d))"
proof (cases "u = []")
  case True
  then have "loadHandler opt doc e s = (Returned, s)"
    using assms(2-4) by (intro loadHandler_noUrl) (simp del: getTargetUrl.simps)
  then show ?thesis using True assms(5) by simp
next
  case False
  let ?s1 = "snd (extractInfoFromUrl u (domain opt) s)"
  let ?ok = "callOnSuccess (findDomain u (domain opt)) u (fst (splitUrl u (domain opt))) ?s1"
  note dropped = ignored_dropped [OF assms(1-3), of opt]
  have err: "fst (errorHandler opt e ?s1) = Returned"
    "effects (snd (errorHandler opt e ?s1)) = effects s"
    "retryCache (snd (errorHandler opt e ?s1)) = retryCache s"
    "\<And>d. collectorAt (snd (errorHandler opt e ?s1)) d = collectorAt s d"
    by (simp_all add: errorHandler_dropped_outcome [OF dropped] errorHandler_dropped_effects [OF dropped]
          errorHandler_dropped_cache [OF dropped] errorHandler_dropped_collectorAt [OF dropped]
          extract_effects extract_cache extract_collectorAt)
  have ok: "effects ?ok = effects s @ [OnSuccess (fst (splitUrl u (domain opt)))]"
    "retryCache ?ok = retryCache s"
    "\<And>d. collectorAt ?ok d
       = (if findDomain u (domain opt) = Some d
          then (collectorAt s d)\<lparr>succeeded := succeeded (collectorAt s d) @ [u]\<rparr>
          else collectorAt s d)"
    by (simp_all add: callOnSuccess_effects callOnSuccess_cache callOnSuccess_collectorAt
          extract_effects extract_cache extract_collectorAt)
  have s1: "effects ?s1 = effects s" "retryCache ?s1 = retryCache s"
    "\<And>d. collectorAt ?s1 d = collectorAt s d"
    by (simp_all add: extract_effects extract_cache extract_collectorAt)
  note unf = loadHandler_unfold [OF assms(2-4) False refl refl refl, of opt doc s]
  show ?thesis
  proof (cases "rec")
    case True
    then have "loadHandler opt doc e s = (Returned, ?ok)"
      using assms(5) False
      by (auto simp: unf hasRules_def split: option.splits)
    then show ?thesis using True ok by simp
  next
    case nrec: False
    then have "loadHandler opt doc e s = (Returned, ?s1)
               \<or> loadHandler opt doc e s = errorHandler opt e ?s1"
      using assms(5) False
      by (auto simp: unf hasRules_def split: option.splits)
    then show ?thesis using nrec s1 err by auto
  qed
qed


text \<open>
  C2, amended. For every element carrying the ignore marker attribute: the failure
  handler, and the stylesheet and image branches of the startup scan, never append its
  URL to the succeeded or failed list of any collector, change no retry count, leave the
  Retry Ledger as it is and invoke none of onRetry, onSuccess, onFail. The success
  handler has no ignore check. It never appends the URL to a failed list, changes no
  retry count and invokes neither onRetry nor onFail; but exactly when the target is a
  script or an image, or a link whose stylesheet has an accessible rule list that is not
  empty, it invokes onSuccess with the logical path and, if the URL classifies, appends
  the URL to the succeeded list of its domain.
\<close>

theorem ignore_marker_respected:
  assumes "hasAttribute t ignoreIdentifier" and "e = Some ev" and "eventTarget ev = Some t"
  shows "(fst (errorHandler opt e s) = Returned
          \<and> effects (snd (errorHandler opt e s)) = effects s
          \<and> retryCache (snd (errorHandler opt e s)) = retryCache s
          \<and> (\<forall>d. collectorAt (snd (errorHandler opt e s)) d = collectorAt s d))
       \<and> (fst (scanLink opt doc t s) = Returned
          \<and> effects (snd (scanLink opt doc t s)) = effects s
          \<and> retryCache (snd (scanLink opt doc t s)) = retryCache s
          \<and> (\<forall>d. collectorAt (snd (scanLink opt doc t s)) d = collectorAt s d))
       \<and> (fst (scanImage opt t s) = Returned
          \<and> effects (snd (scanImage opt t s)) = effects s
          \<and> retryCache (snd (scanImage opt t s)) = retryCache s
          \<and> (\<forall>d. collectorAt (snd (scanImage opt t s)) d = collectorAt s d))
       \<and> (getTargetUrl (Some t) = None \<longrightarrow> loadHandler opt doc e s = (Returned, s))
       \<and> (\<forall>u. getTargetUrl (Some t) = Some u \<longrightarrow>
            fst (loadHandler opt doc e s) = Returned
          \<and> retryCache (snd (loadHandler opt doc e s)) = retryCache s
          \<and> effects (snd (loadHandler opt doc e s))
              = effects s @ (if u \<noteq> [] \<and> (kind t \<noteq> LinkElement \<or> hasRules doc t)
                             then [OnSuccess (fst (splitUrl u (domain opt)))] else [])
          \<and> (\<forall>d. collectorAt (snd (loadHandler opt doc e s)) d
                 = (if (u \<noteq> [] \<and> (kind t \<noteq> LinkElement \<or> hasRules doc t))
                       \<and> findDomain u (domain opt) = Some d
                    then (collectorAt s d)\<lparr>succeeded := succeeded (collectorAt s d) @ [u]\<rparr>
                    else collectorAt s d)))"
proof -
  note dropped = ignored_dropped [OF assms, of opt]
  have err: "fst (errorHandler opt e s) = Returned
          \<and> effects (snd (errorHandler opt e s)) = effects s
          \<and> retryCache (snd (errorHandler opt e s)) = retryCache s
          \<and> (\<forall>d. collectorAt (snd (errorHandler opt e s)) d = collectorAt s d)"
    by (simp add: errorHandler_dropped_outcome [OF dropped] errorHandler_dropped_effects [OF dropped]
          errorHandler_dropped_cache [OF dropped] errorHandler_dropped_collectorAt [OF dropped])
  have lnk: "fst (scanLink opt doc t s) = Returned
          \<and> effects (snd (scanLink opt doc t s)) = effects s
          \<and> retryCache (snd (scanLink opt doc t s)) = retryCache s
          \<and> (\<forall>d. collectorAt (snd (scanLink opt doc t s)) d = collectorAt s d)"
    using scanLink_ignored [OF assms(1), of opt doc s]
    by (auto simp: extract_effects extract_cache extract_collectorAt)
  have img: "fst (scanImage opt t s) = Returned
          \<and> effects (snd (scanImage opt t s)) = effects s
          \<and> retryCache (snd (scanImage opt t s)) = retryCache s
          \<and> (\<forall>d. collectorAt (snd (scanImage opt t s)) d = collectorAt s d)"
    using scanImage_ignored [OF assms(1), of opt s]
    by (auto simp: extract_effects extract_cache extract_collectorAt)
  have nourl: "getTargetUrl (Some t) = None \<longrightarrow> loadHandler opt doc e s = (Returned, s)"
    using assms(2,3) by (auto intro!: loadHandler_noUrl simp del: getTargetUrl.simps)
  have load: "\<forall>u. getTargetUrl (Some t) = Some u \<longrightarrow>
            fst (loadHandler opt doc e s) = Returned
          \<and> retryCache (snd (loadHandler opt doc e s)) = retryCache s
          \<and> effects (snd (loadHandler opt doc e s))
              = effects s @ (if u \<noteq> [] \<and> (kind t \<noteq> LinkElement \<or> hasRules doc t)
                             then [OnSuccess (fst (splitUrl u (domain opt)))] else [])
          \<and> (\<forall>d. collectorAt (snd (loadHandler opt doc e s)) d
                 = (if (u \<noteq> [] \<and> (kind t \<noteq> LinkElement \<or> hasRules doc t))
                       \<and> findDomain u (domain opt) = Some d
                    then (collectorAt s d)\<lparr>succeeded := succeeded (collectorAt s d) @ [u]\<rparr>
                    else collectorAt s d))"
  proof (intro allI impI)
    fix u assume u: "getTargetUrl (Some t) = Some u"
    show "fst (loadHandler opt doc e s) = Returned
          \<and> retryCache (snd (loadHandler opt doc e s)) = retryCache s
          \<and> effects (snd (loadHandler opt doc e s))
              = effects s @ (if u \<noteq> [] \<and> (kind t \<noteq> LinkElement \<or> hasRules doc t)
                             then [OnSuccess (fst (splitUrl u (domain opt)))] else [])
          \<and> (\<forall>d. collectorAt (snd (loadHandler opt doc e s)) d
                 = (if (u \<noteq> [] \<and> (kind t \<noteq> LinkElement \<or> hasRules doc t))
                       \<and> findDomain u (domain opt) = Some d
                    then (collectorAt s d)\<lparr>succeeded := succeeded (collectorAt s d) @ [u]\<rparr>
                    else collectorAt s d))"
      by (rule loadHandler_ignored_exact [OF assms u refl])
  qed
  show ?thesis
    by (rule conjI [OF err conjI [OF lnk conjI [OF img conjI [OF nourl load]]]])
qed


theorem ignore_marker_respected_witness:
  "(fst (errorHandler exampleOpts (eventOn ignoredScript) failedOnce) = Returned
    \<and> effects (snd (errorHandler exampleOpts (eventOn ignoredScript) failedOnce)) = effects failedOnce
    \<and> retryCache (snd (errorHandler exampleOpts (eventOn ignoredScript) failedOnce))
        = retryCache failedOnce
    \<and> (\<forall>d. collectorAt (snd (errorHandler exampleOpts (eventOn ignoredScript) failedOnce)) d
             = collectorAt failedOnce d))
   \<and> (fst (scanLink exampleOpts (documentWith (Some [])) ignoredLink failedOnce) = Returned
    \<and> effects (snd (scanLink exampleOpts (documentWith (Some [])) ignoredLink failedOnce))
        = effects failedOnce
    \<and> retryCache (snd (scanLink exampleOpts (documentWith (Some [])) ignoredLink failedOnce))
        = retryCache failedOnce
    \<and> (\<forall>d. collectorAt (snd (scanLink exampleOpts (documentWith (Some [])) ignoredLink failedOnce)) d
             = collectorAt failedOnce d))
   \<and> (fst (scanImage exampleOpts ignoredImage failedOnce) = Returned
    \<and> effects (snd (scanImage exampleOpts ignoredImage failedOnce)) = effects failedOnce
    \<and> retryCache (snd (scanImage exampleOpts ignoredImage failedOnce)) = retryCache failedOnce
    \<and> (\<forall>d. collectorAt (snd (scanImage exampleOpts ignoredImage failedOnce)) d
             = collectorAt failedOnce d))
   \<and> effects (snd (loadHandler exampleOpts (documentWith None) (eventOn ignoredScript) failedOnce))
       = effects failedOnce @ [OnSuccess (fst (splitUrl ''http://a.com/x.js'' (domain exampleOpts)))]
   \<and> collectorAt (snd (loadHandler exampleOpts (documentWith None) (eventOn ignoredScript) failedOnce))
         ''a.com''
       = (collectorAt failedOnce ''a.com'')
           \<lparr>succeeded := succeeded (collectorAt failedOnce ''a.com'') @ [''http://a.com/x.js'']\<rparr>
   \<and> effects (snd (loadHandler exampleOpts (documentWith (Some [])) (eventOn ignoredLink) failedOnce))
       = effects failedOnce"
proof -
  have ev: "\<And>x. eventOn x = Some \<lparr>target = Some x, srcElement = None\<rparr>"
    by (simp add: eventOn_def)
  have tg: "\<And>x. eventTarget \<lparr>target = Some x, srcElement = None\<rparr> = Some x"
    by (simp add: eventTarget_def)
  have iS: "hasAttribute ignoredScript ignoreIdentifier"
    and iL: "hasAttribute ignoredLink ignoreIdentifier"
    and iI: "hasAttribute ignoredImage ignoreIdentifier"
    by code_simp+
  have uS: "getTargetUrl (Some ignoredScript) = Some ''http://a.com/x.js''"
    and uL: "getTargetUrl (Some ignoredLink) = Some ''http://a.com/s.css''"
    by code_simp+
  have recS: "''http://a.com/x.js'' \<noteq> []
      \<and> (kind ignoredScript \<noteq> LinkElement \<or> hasRules (documentWith None) ignoredScript)"
    by code_simp
  have domS: "findDomain ''http://a.com/x.js'' (domain exampleOpts) = Some ''a.com''"
    by code_simp
  have recL: "\<not> (''http://a.com/s.css'' \<noteq> []
      \<and> (kind ignoredLink \<noteq> LinkElement \<or> hasRules (documentWith (Some [])) ignoredLink))"
    by code_simp
  note a = ignore_marker_respected [OF iS ev tg, where opt = exampleOpts and s = failedOnce
      and doc = "documentWith None"]
  note b = ignore_marker_respected [OF iL ev tg, where opt = exampleOpts and s = failedOnce
      and doc = "documentWith (Some [])"]
  note c = ignore_marker_respected [OF iI ev tg, where opt = exampleOpts and s = failedOnce
      and doc = "documentWith None"]
  note err = a [THEN conjunct1]
  note lnk = b [THEN conjunct2, THEN conjunct1]
  note img = c [THEN conjunct2, THEN conjunct2, THEN conjunct1]
  note loadS = a [THEN conjunct2, THEN conjunct2, THEN conjunct2, THEN conjunct2, THEN spec,
      THEN mp, OF uS, THEN conjunct2, THEN conjunct2]
  note loadL = b [THEN conjunct2, THEN conjunct2, THEN conjunct2, THEN conjunct2, THEN spec,
      THEN mp, OF uL, THEN conjunct2, THEN conjunct2]
  have effS: "effects (snd (loadHandler exampleOpts (documentWith None) (eventOn ignoredScript) failedOnce))
       = effects failedOnce @ [OnSuccess (fst (splitUrl ''http://a.com/x.js'' (domain exampleOpts)))]"
    using loadS [THEN conjunct1] recS by simp
  have colS: "collectorAt (snd (loadHandler exampleOpts (documentWith None) (eventOn ignoredScript) failedOnce))
         ''a.com''
       = (collectorAt failedOnce ''a.com'')
           \<lparr>succeeded := succeeded (collectorAt failedOnce ''a.com'') @ [''http://a.com/x.js'']\<rparr>"
    using loadS [THEN conjunct2, THEN spec, of "''a.com''"] recS domS by simp
  have effL: "effects (snd (loadHandler exampleOpts (documentWith (Some [])) (eventOn ignoredLink) failedOnce))
       = effects failedOnce"
    using loadL [THEN conjunct1] recL by simp
  show ?thesis
    by (rule conjI [OF err conjI [OF lnk conjI [OF img conjI [OF effS conjI [OF colS effL]]]]])
qed

text \<open>
  C2 as stated fails: the success handler records the load of an ignore-marked script in
  the succeeded list of its domain and invokes onSuccess.
\<close>

theorem ignored_script_load_counterexample:
  "hasAttribute ignoredScript ignoreIdentifier
   \<and> effects (snd (loadHandler exampleOpts (documentWith None) (eventOn ignoredScript) initialState))
       = [OnSuccess ''/x.js'']
   \<and> succeeded (collectorAt (snd (loadHandler exampleOpts (documentWith None) (eventOn ignoredScript)
                                     initialState)) ''a.com'')
       = [''http://a.com/x.js'']"
  by code_simp

text \<open>
  The scan has the ignore check in its stylesheet and image branches, not in its script
  branch: an ignore-marked script that is in the document when the scan runs is recorded
  as succeeded.
\<close>

lemma scanScript_records_ignored_script:
  "hasAttribute ignoredScript ignoreIdentifier
   \<and> succeeded (collectorAt (snd (scanScript exampleOpts ignoredScript initialState)) ''a.com'')
       = [''http://a.com/x.js'']"
  by code_simp

subsection \<open>The threshold\<close>

lemma errorHandler_retry_reloads:
  assumes "classifiedFailure opt e = Some (t, u, d)"
    and "\<not> maxRetryCount opt < int (retryCount (collectorAt s d)) + 1"
    and "map_of (domain opt) d = Some f" and "f \<noteq> []"
  shows "\<exists>c r rs. effects (snd (errorHandler opt e s)) = effects s @ OnRetry (stringReplace u d f) u c # rs
             \<and> set rs \<subseteq> {ReloadImage t r, LoadNextScript t r, LoadNextLink t r}"
proof -
  let ?s2 = "recordFailure d u (snd (extractInfoFromUrl u (domain opt) s))"
  let ?c = "collectorAt ?s2 d"
  let ?s4 = "emit (OnRetry (stringReplace u d f) u ?c) ?s2"
  note eq = errorHandler_retry [OF assms(1-4) refl refl]
  have e4: "effects ?s4 = effects s @ [OnRetry (stringReplace u d f) u ?c]"
    by (simp add: emit_effects recordFailure_effects extract_effects)
  show ?thesis
  proof (cases "onRetry opt (stringReplace u d f) u ?c")
    case ReturnsNull
    then have "effects (snd (errorHandler opt e s)) = effects s @ OnRetry (stringReplace u d f) u ?c # []"
      by (simp add: eq e4)
    then show ?thesis by (intro exI [of _ ?c] exI [of _ "[]"]) simp
  next
    case (ReturnsString r)
    then have res: "snd (errorHandler opt e s) = reloadTarget t r ?s4" by (simp add: eq)
    from reloadTarget_effects [of t r ?s4] obtain rs where
      "effects (reloadTarget t r ?s4) = effects ?s4 @ rs"
      and "set rs \<subseteq> {ReloadImage t r, LoadNextScript t r, LoadNextLink t r}" by blast
    then show ?thesis
      by (intro exI [of _ ?c] exI [of _ r] exI [of _ rs]) (simp add: res e4)
  next
    case ReturnsOther
    then have "effects (snd (errorHandler opt e s)) = effects s @ OnRetry (stringReplace u d f) u ?c # []"
      by (simp add: eq e4)
    then show ?thesis by (intro exI [of _ ?c] exI [of _ "[]"]) simp
  qed
qed

lemma reload_no_onFail:
  "set rs \<subseteq> {ReloadImage t r, LoadNextScript t r, LoadNextLink t r} \<Longrightarrow> \<not> list_ex isOnFail rs"
  by (induction rs) auto

lemma errorHandler_onFail_iff:
  assumes "classifiedFailure opt e = Some (t, u, d)"
  shows "list_ex isOnFail (emitted s (snd (errorHandler opt e s)))
           \<longleftrightarrow> maxRetryCount opt < int (retryCount (collectorAt s d)) + 1"
proof (cases "maxRetryCount opt < int (retryCount (collectorAt s d)) + 1")
  case True
  then show ?thesis
    by (simp add: errorHandler_final [OF assms True] emitted_def emit_effects
          recordFailure_effects extract_effects)
next
  case False
  show ?thesis
  proof (cases "truthy (map_of (domain opt) d)")
    case nof: False
    then show ?thesis
      using False
      by (simp add: errorHandler_noFallback [OF assms False nof] emitted_def
            recordFailure_effects extract_effects)
  next
    case True
    then obtain f where f: "map_of (domain opt) d = Some f" "f \<noteq> []"
      by (cases "map_of (domain opt) d") auto
    from errorHandler_retry_reloads [OF assms False f] obtain c r rs where
      eff: "effects (snd (errorHandler opt e s)) = effects s @ OnRetry (stringReplace u d f) u c # rs"
      and sub: "set rs \<subseteq> {ReloadImage t r, LoadNextScript t r, LoadNextLink t r}" by blast
    from reload_no_onFail [OF sub] show ?thesis
      using False by (simp add: emitted_def eff)
  qed
qed

text \<open>
  C3. With the threshold maxRetryCount = N and a domain whose retry count starts at 0,
  the failure handler increments the retry count before it compares: if n classified
  failures under the domain have been handled (among any failure notifications), the
  retry count is n, the next classified failure under the domain raises it to n + 1, and
  that failure invokes onFail exactly when n + 1 > N. So the N-th classified failure does
  not invoke onFail and the (N+1)-th does.
\<close>

theorem threshold_boundary:
  assumes "retryCount (collectorAt s d) = 0"
    and "failuresUnder opt d es = n"
    and "classifiedFailure opt e = Some (t, u, d)"
  shows "retryCount (collectorAt (failures opt es s) d) = n
       \<and> retryCount (collectorAt (snd (errorHandler opt e (failures opt es s))) d) = n + 1
       \<and> (list_ex isOnFail (emitted (failures opt es s) (snd (errorHandler opt e (failures opt es s))))
            \<longleftrightarrow> maxRetryCount opt < int (n + 1))
       \<and> (int (n + 1) = maxRetryCount opt \<longrightarrow>
            \<not> list_ex isOnFail (emitted (failures opt es s) (snd (errorHandler opt e (failures opt es s)))))
       \<and> (int (n + 1) = maxRetryCount opt + 1 \<longrightarrow>
            list_ex isOnFail (emitted (failures opt es s) (snd (errorHandler opt e (failures opt es s)))))"
proof -
  let ?s = "failures opt es s"
  have n: "retryCount (collectorAt ?s d) = n"
    using assms(1,2) by (simp add: failures_retryCount)
  have n1: "retryCount (collectorAt (snd (errorHandler opt e ?s)) d) = n + 1"
    using n by (simp add: errorHandler_classified_collectorAt [OF assms(3)])
  have iff: "list_ex isOnFail (emitted ?s (snd (errorHandler opt e ?s)))
               \<longleftrightarrow> maxRetryCount opt < int (n + 1)"
    using n by (auto simp: errorHandler_onFail_iff [OF assms(3)])
  from n n1 iff show ?thesis by simp
qed

theorem threshold_boundary_witness:
  "retryCount (collectorAt (snd (errorHandler exampleOpts (eventOn exampleScript)
                                   (failures exampleOpts [] initialState))) ''a.com'') = 0 + 1
   \<and> \<not> list_ex isOnFail (emitted (failures exampleOpts [] initialState)
          (snd (errorHandler exampleOpts (eventOn exampleScript) (failures exampleOpts [] initialState))))
   \<and> retryCount (collectorAt (snd (errorHandler exampleOpts (eventOn exampleScript)
          (failures exampleOpts [eventOn exampleImage, eventOn foreignScript] initialState))) ''a.com'') = 1 + 1
   \<and> list_ex isOnFail (emitted (failures exampleOpts [eventOn exampleImage, eventOn foreignScript] initialState)
          (snd (errorHandler exampleOpts (eventOn exampleScript)
             (failures exampleOpts [eventOn exampleImage, eventOn foreignScript] initialState))))"
proof -
  have z: "retryCount (collectorAt initialState ''a.com'') = 0" by code_simp
  have c: "classifiedFailure exampleOpts (eventOn exampleScript)
             = Some (exampleScript, ''http://a.com/x.js'', ''a.com'')"
    by code_simp
  have n0: "failuresUnder exampleOpts ''a.com'' [] = 0" by code_simp
  have n1: "failuresUnder exampleOpts ''a.com'' [eventOn exampleImage, eventOn foreignScript] = 1"
    by code_simp
  have m0: "int (0 + 1) = maxRetryCount exampleOpts" by code_simp
  have m1: "int (1 + 1) = maxRetryCount exampleOpts + 1" by code_simp
  note a = threshold_boundary [OF z n0 c]
  note b = threshold_boundary [OF z n1 c]
  note a1 = a [THEN conjunct2, THEN conjunct1]
  note a2 = a [THEN conjunct2, THEN conjunct2, THEN conjunct2, THEN conjunct1, THEN mp, OF m0]
  note b1 = b [THEN conjunct2, THEN conjunct1]
  note b2 = b [THEN conjunct2, THEN conjunct2, THEN conjunct2, THEN conjunct2, THEN mp, OF m1]
  from a1 a2 b1 b2 show ?thesis by (intro conjI)
qed

subsection \<open>The Retry Ledger\<close>

lemma ledgerStep_refl: "ledgerStep t s s"
  by (simp add: ledgerStep_def)

lemma ledgerStep_same:
  "effects s' = effects s \<Longrightarrow> retryCache s' = retryCache s \<Longrightarrow> ledgerStep t s s'"
  by (simp add: ledgerStep_def)

lemma ledgerStep_trans:
  assumes "ledgerStep t s s'" and "ledgerStep t s' s''"
  shows "ledgerStep t s s''"
proof -
  from assms(1) obtain xs where c1: "retryCache s \<subseteq> retryCache s'"
    and x: "effects s' = effects s @ xs"
    and nx: "length (filter (isReplaceReload t) xs)
               \<le> (if hashTarget t \<in> retryCache s' \<and> hashTarget t \<notin> retryCache s then 1 else 0)"
    unfolding ledgerStep_def by blast
  from assms(2) obtain ys where c2: "retryCache s' \<subseteq> retryCache s''"
    and y: "effects s'' = effects s' @ ys"
    and ny: "length (filter (isReplaceReload t) ys)
               \<le> (if hashTarget t \<in> retryCache s'' \<and> hashTarget t \<notin> retryCache s' then 1 else 0)"
    unfolding ledgerStep_def by blast
  have "length (filter (isReplaceReload t) (xs @ ys))
          \<le> (if hashTarget t \<in> retryCache s'' \<and> hashTarget t \<notin> retryCache s then 1 else 0)"
    using nx ny c1 c2 by (auto split: if_splits)
  moreover have "effects s'' = effects s @ (xs @ ys)" using x y by simp
  moreover have "retryCache s \<subseteq> retryCache s''" using c1 c2 by blast
  ultimately show ?thesis unfolding ledgerStep_def by blast
qed

lemma ledgerStep_emit: "\<not> isReplaceReload t x \<Longrightarrow> ledgerStep t s (emit x s)"
  by (simp add: ledgerStep_def emit_def)

lemma ledgerStep_reloadTarget: "ledgerStep t s (reloadTarget t' r s)"
  by (auto simp: ledgerStep_def reloadTarget_def Let_def emit_def)

lemma ledgerStep_extract: "ledgerStep t s (snd (extractInfoFromUrl u dm s))"
  by (simp add: ledgerStep_same extract_effects extract_cache)

lemma ledgerStep_recordFailure: "ledgerStep t s (recordFailure c u s)"
  by (simp add: ledgerStep_same recordFailure_effects recordFailure_cache)

lemma ledgerStep_recordSuccess: "ledgerStep t s (recordSuccess c u s)"
  by (simp add: ledgerStep_same recordSuccess_effects recordSuccess_cache)

lemma ledgerStep_callOnSuccess: "ledgerStep t s (callOnSuccess cc u p s)"
  by (simp add: ledgerStep_def callOnSuccess_effects callOnSuccess_cache)

lemma ledgerStep_retryOrFail: "ledgerStep t s (snd (retryOrFail opt t' u d c s))"
proof -
  let ?s2 = "recordFailure c u s"
  have a: "ledgerStep t s ?s2" by (rule ledgerStep_recordFailure)
  have b: "\<And>p. ledgerStep t s (emit (OnFail p) ?s2)"
    by (rule ledgerStep_trans [OF a]) (simp add: ledgerStep_emit)
  have c: "\<And>n o' k. ledgerStep t s (emit (OnRetry n o' k) ?s2)"
    by (rule ledgerStep_trans [OF a]) (simp add: ledgerStep_emit)
  have d: "\<And>n o' k r. ledgerStep t s (reloadTarget t' r (emit (OnRetry n o' k) ?s2))"
    by (rule ledgerStep_trans [OF c]) (rule ledgerStep_reloadTarget)
  show ?thesis
    using a b c d
    by (simp add: retryOrFail_def Let_def split: option.splits retryReturn.splits)
qed

lemma ledgerStep_errorHandler: "ledgerStep t s (snd (errorHandler opt e s))"
proof (cases "classifiedFailure opt e")
  case None
  from errorHandler_dropped [OF None, of s] show ?thesis
    by (auto simp: ledgerStep_refl ledgerStep_extract)
next
  case (Some tud)
  then obtain t' u d where c: "classifiedFailure opt e = Some (t', u, d)" by (cases tud) auto
  show ?thesis
    unfolding errorHandler_classified [OF c]
    by (rule ledgerStep_trans [OF ledgerStep_extract ledgerStep_retryOrFail])
qed

lemma ledgerStep_loadHandler: "ledgerStep t s (snd (loadHandler opt doc e s))"
proof (cases "e = None \<or> (\<exists>ev. e = Some ev \<and> \<not> truthy (getTargetUrl (eventTarget ev)))")
  case True
  then show ?thesis by (simp add: loadHandler_noUrl ledgerStep_refl)
next
  case False
  then obtain ev u where e: "e = Some ev" and u: "getTargetUrl (eventTarget ev) = Some u" "u \<noteq> []"
    by (cases e; cases "getTargetUrl (eventTarget (the e))") auto
  then obtain t' where tg: "eventTarget ev = Some t'" by (cases "eventTarget ev") auto
  let ?s1 = "snd (extractInfoFromUrl u (domain opt) s)"
  have a: "ledgerStep t s ?s1" by (rule ledgerStep_extract)
  have b: "\<And>cc p. ledgerStep t s (callOnSuccess cc u p ?s1)"
    by (rule ledgerStep_trans [OF a ledgerStep_callOnSuccess])
  have c: "ledgerStep t s (snd (errorHandler opt e ?s1))"
    by (rule ledgerStep_trans [OF a ledgerStep_errorHandler])
  show ?thesis
    using a b c u(1) [unfolded tg]
    by (simp add: loadHandler_unfold [OF e tg _ u(2) refl refl refl] del: getTargetUrl.simps
          split: option.splits)
qed


lemma ledgerStep_scanScript: "ledgerStep t s (snd (scanScript opt el s))"
proof (cases "getTargetUrl (Some el)")
  case None
  then show ?thesis by (simp add: scanScript_def ledgerStep_refl del: getTargetUrl.simps)
next
  case (Some u)
  obtain s1 where ex: "extractInfoFromUrl u (domain opt) s =
      ((findDomain u (domain opt), findDomain u (domain opt)), s1)"
    using extract_pair by blast
  then have s1: "s1 = snd (extractInfoFromUrl u (domain opt) s)" by simp
  have a: "ledgerStep t s s1" unfolding s1 by (rule ledgerStep_extract)
  have b: "\<And>c. ledgerStep t s (recordSuccess c u s1)"
    by (rule ledgerStep_trans [OF a ledgerStep_recordSuccess])
  show ?thesis
    using Some ex a b
    by (auto simp: scanScript_def ledgerStep_refl simp del: getTargetUrl.simps split: option.splits)
qed

lemma ledgerStep_scanLink: "ledgerStep t s (snd (scanLink opt doc el s))"
proof (cases "getTargetUrl (Some el)")
  case None
  then show ?thesis by (simp add: scanLink_def ledgerStep_refl del: getTargetUrl.simps)
next
  case (Some u)
  obtain s1 where ex: "extractInfoFromUrl u (domain opt) s =
      ((findDomain u (domain opt), findDomain u (domain opt)), s1)"
    using extract_pair by blast
  then have s1: "s1 = snd (extractInfoFromUrl u (domain opt) s)" by simp
  have a: "ledgerStep t s s1" unfolding s1 by (rule ledgerStep_extract)
  have b: "\<And>c. ledgerStep t s (recordSuccess c u s1)"
    by (rule ledgerStep_trans [OF a ledgerStep_recordSuccess])
  have c: "ledgerStep t s (snd (errorHandler opt (elementEvent el) s1))"
    by (rule ledgerStep_trans [OF a ledgerStep_errorHandler])
  show ?thesis
    using Some ex a b c
    by (auto simp: scanLink_def ledgerStep_refl simp del: getTargetUrl.simps split: option.splits)
qed

lemma ledgerStep_scanImage: "ledgerStep t s (snd (scanImage opt el s))"
proof (cases "getTargetUrl (Some el)")
  case None
  then show ?thesis by (simp add: scanImage_def ledgerStep_refl del: getTargetUrl.simps)
next
  case (Some u)
  obtain s1 where ex: "extractInfoFromUrl u (domain opt) s =
      ((findDomain u (domain opt), findDomain u (domain opt)), s1)"
    using extract_pair by blast
  then have s1: "s1 = snd (extractInfoFromUrl u (domain opt) s)" by simp
  have a: "ledgerStep t s s1" unfolding s1 by (rule ledgerStep_extract)
  have b: "\<And>c. ledgerStep t s (recordSuccess c u s1)"
    by (rule ledgerStep_trans [OF a ledgerStep_recordSuccess])
  have c: "ledgerStep t s (snd (errorHandler opt (elementEvent el) s1))"
    by (rule ledgerStep_trans [OF a ledgerStep_errorHandler])
  show ?thesis
    using Some ex a b c
    by (auto simp: scanImage_def ledgerStep_refl simp del: getTargetUrl.simps split: option.splits)
qed

lemma ledgerStep_forEach:
  assumes "\<And>el s. ledgerStep t s (snd (f el s))"
  shows "ledgerStep t s (snd (forEach f els s))"
proof (induction els arbitrary: s)
  case Nil
  show ?case by (simp add: ledgerStep_refl)
next
  case (Cons el els)
  obtain r s' where f: "f el s = (r, s')" by (cases "f el s") auto
  then have st: "ledgerStep t s s'" using assms [of s el] by simp
  show ?case
  proof (cases r)
    case Returned
    with f show ?thesis by (simp add: ledgerStep_trans [OF st Cons.IH])
  next
    case Thrown
    with f st show ?thesis by simp
  qed
qed

lemma ledgerStep_processExistingElements:
  "ledgerStep t s (snd (processExistingElements opt doc s))"
proof -
  obtain r1 s1 where a: "forEach (scanScript opt) (selectScripts doc) s = (r1, s1)"
    by (cases "forEach (scanScript opt) (selectScripts doc) s") auto
  obtain r2 s2 where b: "forEach (scanLink opt doc) (selectLinks doc) s1 = (r2, s2)"
    by (cases "forEach (scanLink opt doc) (selectLinks doc) s1") auto
  have la: "ledgerStep t s s1"
    using ledgerStep_forEach [where f = "scanScript opt" and els = "selectScripts doc" and s = s
        and t = t, OF ledgerStep_scanScript] a
    by simp
  have lb: "ledgerStep t s1 s2"
    using ledgerStep_forEach [where f = "scanLink opt doc" and els = "selectLinks doc" and s = s1
        and t = t, OF ledgerStep_scanLink] b
    by simp
  have lc: "ledgerStep t s2 (snd (forEach (scanImage opt) (selectImages doc) s2))"
    by (rule ledgerStep_forEach [OF ledgerStep_scanImage])
  show ?thesis
    using a b la ledgerStep_trans [OF la lb] ledgerStep_trans [OF ledgerStep_trans [OF la lb] lc]
    by (cases r1; cases r2) (simp_all add: processExistingElements_def)
qed

lemma ledgerStep_deliver: "ledgerStep t s (deliver opt n s)"
  by (cases n)
     (simp_all add: ledgerStep_errorHandler ledgerStep_loadHandler ledgerStep_processExistingElements)

lemma ledgerStep_session: "ledgerStep t s (session opt ns s)"
proof (induction ns arbitrary: s)
  case Nil
  show ?case by (simp add: ledgerStep_refl)
next
  case (Cons n ns)
  show ?case by (simp add: ledgerStep_trans [OF ledgerStep_deliver Cons.IH])
qed

lemma ledgerStep_replaceReloads:
  assumes "ledgerStep t s s'"
  shows "replaceReloads t s' \<le> replaceReloads t s + (if hashTarget t \<in> retryCache s then 0 else 1)
       \<and> (replaceReloads t s < replaceReloads t s' \<longrightarrow> hashTarget t \<in> retryCache s')"
  using assms by (auto simp: ledgerStep_def replaceReloads_def split: if_splits)


lemma errorHandler_image_reload:
  assumes "classifiedFailure opt e = Some (i, u, d)" and "kind i = ImageElement"
    and "\<not> maxRetryCount opt < int (retryCount (collectorAt s d)) + 1"
    and "map_of (domain opt) d = Some f" and "f \<noteq> []"
    and "col = (collectorAt s d)\<lparr>retryCount := retryCount (collectorAt s d) + 1,
                                  failed := failed (collectorAt s d) @ [u]\<rparr>"
    and "onRetry opt (stringReplace u d f) u col = ReturnsString r"
  shows "effects (snd (errorHandler opt e s))
           = effects s @ [OnRetry (stringReplace u d f) u col, ReloadImage i r]
       \<and> retryCache (snd (errorHandler opt e s)) = retryCache s"
proof -
  let ?s2 = "recordFailure d u (snd (extractInfoFromUrl u (domain opt) s))"
  let ?s4 = "emit (OnRetry (stringReplace u d f) u col) ?s2"
  have col: "collectorAt ?s2 d = col" by (simp add: recordFailure_at assms(6))
  have src: "src i \<noteq> []" using classifiedFailure_src [OF assms(1)] assms(2) by simp
  have "snd (errorHandler opt e s) = emit (ReloadImage i r) ?s4"
    using assms(7)
    by (simp add: errorHandler_retry [OF assms(1,3,4,5) refl refl, unfolded col]
          reloadTarget_image [OF assms(2) src])
  then show ?thesis
    by (simp add: emit_effects emit_cache recordFailure_effects recordFailure_cache
          extract_effects extract_cache)
qed

lemma image_reload_iff:
  assumes "classifiedFailure opt e = Some (i, u, d)" and "kind i = ImageElement"
    and "col = (collectorAt s d)\<lparr>retryCount := retryCount (collectorAt s d) + 1,
                                  failed := failed (collectorAt s d) @ [u]\<rparr>"
  shows "list_ex (isReloadImage i) (emitted s (snd (errorHandler opt e s)))
           \<longleftrightarrow> \<not> maxRetryCount opt < int (retryCount (collectorAt s d)) + 1
               \<and> (\<exists>f r. map_of (domain opt) d = Some f \<and> f \<noteq> []
                      \<and> onRetry opt (stringReplace u d f) u col = ReturnsString r)"
proof (cases "maxRetryCount opt < int (retryCount (collectorAt s d)) + 1")
  case True
  then show ?thesis
    by (simp add: errorHandler_final [OF assms(1) True] emitted_def emit_effects
          recordFailure_effects extract_effects)
next
  case False
  show ?thesis
  proof (cases "truthy (map_of (domain opt) d)")
    case nof: False
    have "emitted s (snd (errorHandler opt e s)) = []"
      by (simp add: errorHandler_noFallback [OF assms(1) False nof] emitted_def
            recordFailure_effects extract_effects)
    moreover have "\<not> (\<exists>f r. map_of (domain opt) d = Some f \<and> f \<noteq> []
                      \<and> onRetry opt (stringReplace u d f) u col = ReturnsString r)"
      using nof by auto
    ultimately show ?thesis by simp
  next
    case True
    then obtain f where f: "map_of (domain opt) d = Some f" "f \<noteq> []"
      by (cases "map_of (domain opt) d") auto
    let ?s2 = "recordFailure d u (snd (extractInfoFromUrl u (domain opt) s))"
    let ?s4 = "emit (OnRetry (stringReplace u d f) u col) ?s2"
    have col: "collectorAt ?s2 d = col" by (simp add: recordFailure_at assms(3))
    note eq = errorHandler_retry [OF assms(1) False f refl refl, unfolded col]
    have e4: "effects ?s4 = effects s @ [OnRetry (stringReplace u d f) u col]"
      by (simp add: emit_effects recordFailure_effects extract_effects)
    show ?thesis
    proof (cases "onRetry opt (stringReplace u d f) u col")
      case ReturnsNull
      then have "emitted s (snd (errorHandler opt e s)) = [OnRetry (stringReplace u d f) u col]"
        by (simp add: eq e4 emitted_def)
      then show ?thesis using ReturnsNull f by simp
    next
      case ReturnsOther
      then have "emitted s (snd (errorHandler opt e s)) = [OnRetry (stringReplace u d f) u col]"
        by (simp add: eq e4 emitted_def)
      then show ?thesis using ReturnsOther f by simp
    next
      case (ReturnsString r)
      from errorHandler_image_reload [OF assms(1,2) False f assms(3) ReturnsString]
      have "emitted s (snd (errorHandler opt e s))
              = [OnRetry (stringReplace u d f) u col, ReloadImage i r]"
        by (simp add: emitted_def)
      then show ?thesis using ReturnsString f False by simp
    qed
  qed
qed

text \<open>
  C4, amended. Across a session (any sequence of failure notifications, success
  notifications and scans, from the initial state), the replace-element reload
  (loadNextScript or loadNextLink) of an element is performed at most once, and once it
  has been performed the identifier of the element is in the Retry Ledger. Images are
  exempt from the ledger: whatever the ledger holds, a classified failure of an image
  reloads the image exactly when it is not final, the Domain Map has a non-empty fallback
  for the domain and the hook returns a string; the image is then reloaded with that
  string and the ledger is left as it is.
\<close>

theorem at_most_one_replace_reload:
  "replaceReloads t (session opt ns initialState) \<le> 1
   \<and> (replaceReloads t (session opt ns initialState) = 1
        \<longrightarrow> hashTarget t \<in> retryCache (session opt ns initialState))
   \<and> (classifiedFailure opt e = Some (i, u, d) \<and> kind i = ImageElement
        \<and> \<not> maxRetryCount opt < int (retryCount (collectorAt s d)) + 1
        \<and> map_of (domain opt) d = Some f \<and> f \<noteq> []
        \<and> onRetry opt (stringReplace u d f) u
             ((collectorAt s d)\<lparr>retryCount := retryCount (collectorAt s d) + 1,
                               failed := failed (collectorAt s d) @ [u]\<rparr>) = ReturnsString r
        \<longrightarrow> effects (snd (errorHandler opt e s))
              = effects s @ [OnRetry (stringReplace u d f) u
                               ((collectorAt s d)\<lparr>retryCount := retryCount (collectorAt s d) + 1,
                                                 failed := failed (collectorAt s d) @ [u]\<rparr>),
                             ReloadImage i r]
          \<and> retryCache (snd (errorHandler opt e s)) = retryCache s)
   \<and> (classifiedFailure opt e = Some (i, u, d) \<and> kind i = ImageElement
        \<longrightarrow> (list_ex (isReloadImage i) (emitted s (snd (errorHandler opt e s)))
              \<longleftrightarrow> \<not> maxRetryCount opt < int (retryCount (collectorAt s d)) + 1
                  \<and> (\<exists>f r. map_of (domain opt) d = Some f \<and> f \<noteq> []
                         \<and> onRetry opt (stringReplace u d f) u
                              ((collectorAt s d)\<lparr>retryCount := retryCount (collectorAt s d) + 1,
                                                failed := failed (collectorAt s d) @ [u]\<rparr>)
                            = ReturnsString r)))"
proof (intro conjI impI)
  have z: "replaceReloads t initialState = 0" "hashTarget t \<notin> retryCache initialState"
    by (simp_all add: replaceReloads_def initialState_def)
  note st = ledgerStep_replaceReloads
      [OF ledgerStep_session [where t = t and s = initialState and opt = opt and ns = ns]]
  from st z show "replaceReloads t (session opt ns initialState) \<le> 1" by simp
  assume "replaceReloads t (session opt ns initialState) = 1"
  with st z show "hashTarget t \<in> retryCache (session opt ns initialState)" by simp
next
  assume h: "classifiedFailure opt e = Some (i, u, d) \<and> kind i = ImageElement
        \<and> \<not> maxRetryCount opt < int (retryCount (collectorAt s d)) + 1
        \<and> map_of (domain opt) d = Some f \<and> f \<noteq> []
        \<and> onRetry opt (stringReplace u d f) u
             ((collectorAt s d)\<lparr>retryCount := retryCount (collectorAt s d) + 1,
                               failed := failed (collectorAt s d) @ [u]\<rparr>) = ReturnsString r"
  then have img: "effects (snd (errorHandler opt e s))
              = effects s @ [OnRetry (stringReplace u d f) u
                               ((collectorAt s d)\<lparr>retryCount := retryCount (collectorAt s d) + 1,
                                                 failed := failed (collectorAt s d) @ [u]\<rparr>),
                             ReloadImage i r]
          \<and> retryCache (snd (errorHandler opt e s)) = retryCache s"
    by (intro errorHandler_image_reload [where f = f]) simp_all
  from img show "effects (snd (errorHandler opt e s))
              = effects s @ [OnRetry (stringReplace u d f) u
                               ((collectorAt s d)\<lparr>retryCount := retryCount (collectorAt s d) + 1,
                                                 failed := failed (collectorAt s d) @ [u]\<rparr>),
                             ReloadImage i r]" by (rule conjunct1)
  from img show "retryCache (snd (errorHandler opt e s)) = retryCache s" by (rule conjunct2)
next
  assume c: "classifiedFailure opt e = Some (i, u, d) \<and> kind i = ImageElement"
  show "list_ex (isReloadImage i) (emitted s (snd (errorHandler opt e s)))
          \<longleftrightarrow> \<not> maxRetryCount opt < int (retryCount (collectorAt s d)) + 1
              \<and> (\<exists>f r. map_of (domain opt) d = Some f \<and> f \<noteq> []
                     \<and> onRetry opt (stringReplace u d f) u
                          ((collectorAt s d)\<lparr>retryCount := retryCount (collectorAt s d) + 1,
                                            failed := failed (collectorAt s d) @ [u]\<rparr>)
                        = ReturnsString r)"
    by (rule image_reload_iff [OF c [THEN conjunct1] c [THEN conjunct2] refl])
qed

theorem at_most_one_replace_reload_witness:
  "replaceReloads exampleScript (session patientOpts scriptSession initialState) \<le> 1
   \<and> replaceReloads exampleScript (session patientOpts scriptSession initialState) = 1
   \<and> hashTarget exampleScript \<in> retryCache (session patientOpts scriptSession initialState)
   \<and> effects (snd (errorHandler patientOpts (eventOn exampleImage) imageFailedOnce))
       = effects imageFailedOnce
         @ [OnRetry (stringReplace ''http://a.com/i.png'' ''a.com'' ''b.com'') ''http://a.com/i.png''
              ((collectorAt imageFailedOnce ''a.com'')
                 \<lparr>retryCount := retryCount (collectorAt imageFailedOnce ''a.com'') + 1,
                  failed := failed (collectorAt imageFailedOnce ''a.com'') @ [''http://a.com/i.png'']\<rparr>),
            ReloadImage exampleImage ''http://b.com/i.png'']
   \<and> retryCache (snd (errorHandler patientOpts (eventOn exampleImage) imageFailedOnce))
       = retryCache imageFailedOnce
   \<and> list_ex (isReloadImage exampleImage)
         (emitted imageFailedOnce (snd (errorHandler patientOpts (eventOn exampleImage) imageFailedOnce)))"
proof -
  have one: "replaceReloads exampleScript (session patientOpts scriptSession initialState) = 1"
    by code_simp
  have c: "classifiedFailure patientOpts (eventOn exampleImage)
             = Some (exampleImage, ''http://a.com/i.png'', ''a.com'')
        \<and> kind exampleImage = ImageElement"
    by code_simp
  have n: "\<not> maxRetryCount patientOpts < int (retryCount (collectorAt imageFailedOnce ''a.com'')) + 1"
    by code_simp
  have f: "map_of (domain patientOpts) ''a.com'' = Some ''b.com'' \<and> ''b.com'' \<noteq> []
        \<and> onRetry patientOpts (stringReplace ''http://a.com/i.png'' ''a.com'' ''b.com'') ''http://a.com/i.png''
             ((collectorAt imageFailedOnce ''a.com'')
                \<lparr>retryCount := retryCount (collectorAt imageFailedOnce ''a.com'') + 1,
                 failed := failed (collectorAt imageFailedOnce ''a.com'') @ [''http://a.com/i.png'']\<rparr>)
           = ReturnsString ''http://b.com/i.png''"
    by code_simp
  have h: "classifiedFailure patientOpts (eventOn exampleImage)
             = Some (exampleImage, ''http://a.com/i.png'', ''a.com'')
        \<and> kind exampleImage = ImageElement
        \<and> \<not> maxRetryCount patientOpts < int (retryCount (collectorAt imageFailedOnce ''a.com'')) + 1
        \<and> map_of (domain patientOpts) ''a.com'' = Some ''b.com'' \<and> ''b.com'' \<noteq> []
        \<and> onRetry patientOpts (stringReplace ''http://a.com/i.png'' ''a.com'' ''b.com'') ''http://a.com/i.png''
             ((collectorAt imageFailedOnce ''a.com'')
                \<lparr>retryCount := retryCount (collectorAt imageFailedOnce ''a.com'') + 1,
                 failed := failed (collectorAt imageFailedOnce ''a.com'') @ [''http://a.com/i.png'']\<rparr>)
           = ReturnsString ''http://b.com/i.png''"
    using c n f by blast
  have ex: "\<exists>f r. map_of (domain patientOpts) ''a.com'' = Some f \<and> f \<noteq> []
        \<and> onRetry patientOpts (stringReplace ''http://a.com/i.png'' ''a.com'' f) ''http://a.com/i.png''
             ((collectorAt imageFailedOnce ''a.com'')
                \<lparr>retryCount := retryCount (collectorAt imageFailedOnce ''a.com'') + 1,
                 failed := failed (collectorAt imageFailedOnce ''a.com'') @ [''http://a.com/i.png'']\<rparr>)
           = ReturnsString r"
    using f by blast
  note inst = at_most_one_replace_reload [of exampleScript patientOpts scriptSession
      "eventOn exampleImage" exampleImage "''http://a.com/i.png''" "''a.com''" imageFailedOnce
      "''b.com''" "''http://b.com/i.png''"]
  note le = inst [THEN conjunct1]
  note ledger = inst [THEN conjunct2, THEN conjunct1, THEN mp, OF one]
  note image = inst [THEN conjunct2, THEN conjunct2, THEN conjunct1, THEN mp, OF h]
  note exactly = inst [THEN conjunct2, THEN conjunct2, THEN conjunct2, THEN mp, OF c,
      THEN iffD2, OF conjI [OF n ex]]
  from le one ledger image exactly show ?thesis by (elim conjE, intro conjI) assumption+
qed

text \<open>
  C4 as stated fails for images: a failure that is not final and not vetoed does not
  reload the image when the hook returns a value that is neither a string nor null (the
  handler throws after the call of the hook), nor when the Domain Map has no fallback to
  switch to (the handler returns before the hook).
\<close>

theorem image_not_reloaded_counterexample:
  "classifiedFailure brokenOpts (eventOn exampleImage)
     = Some (exampleImage, ''http://a.com/i.png'', ''a.com'')
   \<and> \<not> maxRetryCount brokenOpts < int (retryCount (collectorAt initialState ''a.com'')) + 1
   \<and> onRetry brokenOpts ''http://b.com/i.png'' ''http://a.com/i.png''
         \<lparr>retryCount = 1, succeeded = [], failed = [''http://a.com/i.png'']\<rparr> \<noteq> ReturnsNull
   \<and> fst (errorHandler brokenOpts (eventOn exampleImage) initialState) = Thrown
   \<and> effects (snd (errorHandler brokenOpts (eventOn exampleImage) initialState))
       = [OnRetry ''http://b.com/i.png'' ''http://a.com/i.png''
            \<lparr>retryCount = 1, succeeded = [], failed = [''http://a.com/i.png'']\<rparr>]
   \<and> classifiedFailure (noFallbackOpts 1) (eventOn exampleImage)
       = Some (exampleImage, ''http://a.com/i.png'', ''a.com'')
   \<and> \<not> maxRetryCount (noFallbackOpts 1) < int (retryCount (collectorAt initialState ''a.com'')) + 1
   \<and> effects (snd (errorHandler (noFallbackOpts 1) (eventOn exampleImage) initialState)) = []"
  by code_simp

end
